theory Spec2Isabelle
  imports Main "HOL-Library.AList" "HOL-Library.Word"
begin

section \<open>File exceptions (lib-common/exceptions/file.ts)\<close>

text \<open>
  The table \<open>Code\<close> of \<open>file.ts\<close>, in the order of the source: property name and
  code string. A property that the table does not have reads as \<open>undefined\<close> in
  JavaScript, which is \<open>None\<close> here.
\<close>

definition Code :: "(string \<times> string) list" where
  "Code =
    [(''notFound'', ''ENOENT''),
     (''alreadyExists'', ''EEXIST''),
     (''notDirectory'', ''ENOTDIR''),
     (''notFile'', ''ENOTFILE''),
     (''notLink'', ''not-link''),
     (''isDirectory'', ''EISDIR''),
     (''notEmpty'', ''ENOTEMPTY''),
     (''endOfFile'', ''EEOF''),
     (''opNotPermitted'', ''EPERM''),
     (''busy'', ''EBUSY''),
     (''ioError'', ''EIO''),
     (''concurrentUpdate'', ''concurrent-update''),
     (''parsingError'', ''parsing-error''),
     (''notImplemented'', ''ENOSYS''),
     (''isEndless'', ''is-endless'')]"

definition excCode :: "string \<Rightarrow> string option" where
  "excCode prop = map_of Code prop"

text \<open>
  \<open>web3n.files.FileException\<close>. An optional boolean flag that is absent is \<open>False\<close>;
  \<open>cause\<close> is an opaque value, \<open>None\<close> when it is \<open>undefined\<close>.
\<close>

record FileException =
  runtimeException :: bool
  exc_type :: string
  exc_code :: "string option"
  exc_path :: string
  exc_cause :: "string option"
  alreadyExists :: bool
  notFound :: bool
  isDirectory :: bool
  notDirectory :: bool
  notFile :: bool
  notLink :: bool
  endOfFile :: bool
  busy :: bool
  ioError :: bool
  notEmpty :: bool
  opNotPermitted :: bool
  concurrentUpdate :: bool
  parsingError :: bool
  notImplemented :: bool
  isEndless :: bool
  attrsNotEnabledInFS :: bool
  versionMismatch :: bool

definition bareFileException :: "string option \<Rightarrow> string \<Rightarrow> string option \<Rightarrow> FileException" where
  "bareFileException code path cause =
    \<lparr> runtimeException = True, exc_type = ''file'', exc_code = code, exc_path = path,
      exc_cause = cause,
      alreadyExists = False, notFound = False, isDirectory = False, notDirectory = False,
      notFile = False, notLink = False, endOfFile = False, busy = False, ioError = False,
      notEmpty = False, opNotPermitted = False, concurrentUpdate = False,
      parsingError = False, notImplemented = False, isEndless = False,
      attrsNotEnabledInFS = False, versionMismatch = False \<rparr>"

definition makeFileException :: "string option \<Rightarrow> string \<Rightarrow> string option \<Rightarrow> FileException" where
  "makeFileException code path cause =
    (let err = bareFileException code path cause in
     if code = excCode ''alreadyExists'' then err\<lparr>alreadyExists := True\<rparr>
     else if code = excCode ''notFound'' then err\<lparr>notFound := True\<rparr>
     else if code = excCode ''isDirectory'' then err\<lparr>isDirectory := True\<rparr>
     else if code = excCode ''notDirectory'' then err\<lparr>notDirectory := True\<rparr>
     else if code = excCode ''notFile'' then err\<lparr>notFile := True\<rparr>
     else if code = excCode ''notLink'' then err\<lparr>notLink := True\<rparr>
     else if code = excCode ''endOfFile'' then err\<lparr>endOfFile := True\<rparr>
     else if code = excCode ''busy'' then err\<lparr>busy := True\<rparr>
     else if code = excCode ''ioError'' then err\<lparr>ioError := True\<rparr>
     else if code = excCode ''notEmpty'' then err\<lparr>notEmpty := True\<rparr>
     else if code = excCode ''opNotPermitted'' then err\<lparr>opNotPermitted := True\<rparr>
     else if code = excCode ''concurrentUpdate'' then err\<lparr>concurrentUpdate := True\<rparr>
     else if code = excCode ''parsingError'' then err\<lparr>parsingError := True\<rparr>
     else if code = excCode ''notImplemented'' then err\<lparr>notImplemented := True\<rparr>
     else if code = excCode ''isEndless'' then err\<lparr>isEndless := True\<rparr>
     else err)"

definition makeVersionMismatchExc :: "string \<Rightarrow> FileException" where
  "makeVersionMismatchExc path = (bareFileException None path None)\<lparr>versionMismatch := True\<rparr>"

text \<open>
  The flag of an exception that carries the name of a property of \<open>Code\<close>; and the
  flags of an exception read in the order of the table.
\<close>

definition flagOf :: "string \<Rightarrow> FileException \<Rightarrow> bool" where
  "flagOf prop e =
    (if prop = ''notFound'' then notFound e
     else if prop = ''alreadyExists'' then alreadyExists e
     else if prop = ''notDirectory'' then notDirectory e
     else if prop = ''notFile'' then notFile e
     else if prop = ''notLink'' then notLink e
     else if prop = ''isDirectory'' then isDirectory e
     else if prop = ''notEmpty'' then notEmpty e
     else if prop = ''endOfFile'' then endOfFile e
     else if prop = ''opNotPermitted'' then opNotPermitted e
     else if prop = ''busy'' then busy e
     else if prop = ''ioError'' then ioError e
     else if prop = ''concurrentUpdate'' then concurrentUpdate e
     else if prop = ''parsingError'' then parsingError e
     else if prop = ''notImplemented'' then notImplemented e
     else if prop = ''isEndless'' then isEndless e
     else False)"

definition codeFlags :: "FileException \<Rightarrow> bool list" where
  "codeFlags e = map (\<lambda>(prop, c). flagOf prop e) Code"


text \<open>
  What a JavaScript \<open>throw\<close> carries in this code: a plain \<open>Error\<close> with its message,
  a file exception, or a rejection of the object store (the \<open>Storage\<close> port).
\<close>

datatype error = Error string | FileExc FileException | StorageExc string

section \<open>Paths (\<open>splitPathIntoParts\<close>, \<open>split\<close>, \<open>setExcPath\<close>)\<close>

text \<open>
  \<open>String.prototype.split\<close> with a separator of one character: the pieces between the
  separators, empty pieces included; the empty string gives one empty piece.
\<close>

fun split_on :: "char \<Rightarrow> string \<Rightarrow> string list" where
  "split_on sep [] = [[]]"
| "split_on sep (c # cs) =
    (if c = sep then [] # split_on sep cs
     else (case split_on sep cs of
             [] \<Rightarrow> [[c]]
           | piece # pieces \<Rightarrow> (c # piece) # pieces))"

text \<open>\<open>Array.prototype.join\<close> with the separator \<open>/\<close>.\<close>

fun join_slash :: "string list \<Rightarrow> string" where
  "join_slash [] = []"
| "join_slash [s] = s"
| "join_slash (s # t # ts) = s @ CHR ''/'' # join_slash (t # ts)"

text \<open>
  \<open>posix.resolve('/', path)\<close> of Node's \<open>path\<close> module, a library outside this
  repository. With the first argument \<open>'/'\<close> the result is always absolute: it is
  \<open>/\<close> followed by the normalized segments of \<open>path\<close> joined with \<open>/\<close>, where
  normalization (Node's \<open>normalizeString\<close> with \<open>allowAboveRoot\<close> false) drops empty
  segments and \<open>.\<close> segments, and lets a \<open>..\<close> segment remove the segment kept last,
  or nothing when no segment is kept.
\<close>

fun normalizeSegments :: "string list \<Rightarrow> string list \<Rightarrow> string list" where
  "normalizeSegments res [] = res"
| "normalizeSegments res (seg # segs) =
    (if seg = [] \<or> seg = ''.'' then normalizeSegments res segs
     else if seg = ''..'' then normalizeSegments (butlast res) segs
     else normalizeSegments (res @ [seg]) segs)"

definition posix_resolve_root :: "string \<Rightarrow> string" where
  "posix_resolve_root path =
    CHR ''/'' # join_slash (normalizeSegments [] (split_on CHR ''/'' path))"

definition splitPathIntoParts :: "string \<Rightarrow> string list" where
  "splitPathIntoParts path =
    filter (\<lambda>part. part \<noteq> []) (split_on CHR ''/'' (posix_resolve_root path))"

text \<open>
  \<open>split\<close>: the last part is the file name, \<open>undefined\<close> (\<open>None\<close>) when there is no
  part; \<open>splice\<close> removes it from the folder path.
\<close>

definition split :: "string \<Rightarrow> string list \<times> string option" where
  "split path =
    (let folderPath = splitPathIntoParts path in
     (butlast folderPath, if folderPath = [] then None else Some (last folderPath)))"

definition setExcPath :: "string \<Rightarrow> error \<Rightarrow> error" where
  "setExcPath path exc =
    (case exc of
       FileExc e \<Rightarrow>
         (if notFound e \<or> notDirectory e \<or> alreadyExists e \<or> notFile e
          then FileExc (e\<lparr>exc_path := path\<rparr>) else FileExc e)
     | _ \<Rightarrow> exc)"

text \<open>The segments that normalization keeps as they are.\<close>

definition plainSegment :: "string \<Rightarrow> bool" where
  "plainSegment seg = (seg \<noteq> [] \<and> seg \<noteq> ''.'' \<and> seg \<noteq> ''..'')"

definition plainSegments :: "string list \<Rightarrow> bool" where
  "plainSegments segs = (\<forall>s \<in> set segs. plainSegment s \<and> CHR ''/'' \<notin> set s)"


section \<open>Objects, payloads and the object store\<close>

type_synonym bytes = "8 word list"

text \<open>\<open>ObjId = string | null\<close>; \<open>null\<close>, the id of the root object, is \<open>None\<close>.\<close>

type_synonym ObjId = "string option"

record CommonAttrs =
  ctime :: int
  mtime :: int

type_synonym XAttrs = "(string \<times> string) list"

record FileAttrs =
  fa_attrs :: CommonAttrs
  fa_size :: int
  fa_xattrs :: "XAttrs option"

text \<open>
  Modelled from the spec: \<open>NodePersistance\<close> (node-persistence.ts) and the \<open>Cryptor\<close>
  port are not among the sources. The specification gives \<open>read_payload(source)\<close> as a
  payload handle exposing the attributes, the extended attributes and random access to
  the content, and \<open>write_whole\<close> as producing the object bytes of a complete payload.
  An object is therefore kept as the payload it decrypts to: the common attributes, the
  size recorded with them, the extended attributes and the content bytes.
\<close>

record Payload =
  pl_attrs :: CommonAttrs
  pl_size :: int
  pl_xattrs :: "XAttrs option"
  pl_content :: bytes

record ObjSource =
  src_version :: int
  src_payload :: Payload

definition readonlyPayload :: "ObjSource \<Rightarrow> Payload" where
  "readonlyPayload objSrc = src_payload objSrc"

definition readSomeContentBytes :: "Payload \<Rightarrow> int \<Rightarrow> int \<Rightarrow> bytes" where
  "readSomeContentBytes payload start end =
    take (nat (end - start)) (drop (nat start) (pl_content payload))"

definition writeWhole :: "bytes \<Rightarrow> int \<Rightarrow> CommonAttrs \<Rightarrow> XAttrs option \<Rightarrow> Payload" where
  "writeWhole content version attrs xattrs =
    \<lparr> pl_attrs = attrs, pl_size = int (length content), pl_xattrs = xattrs,
      pl_content = content \<rparr>"

text \<open>
  Modelled from the spec: the \<open>Storage\<close> port (common.ts and the stores behind it are
  not among the sources). \<open>get_obj\<close> gives the stored object with its version or
  rejects; \<open>save_obj(objId, new_version, Subscribe)\<close> is the writer-push interface: it
  consumes the stream of encrypted bytes, which either completes with an object or ends
  with the error given to the sink, and an error of the sink cancels the save;
  \<open>generate_new_obj_id\<close> gives a new identifier, here the next of a counter.
\<close>

datatype StorageType = Local | Synced | Share

record Storage =
  st_type :: StorageType
  st_objs :: "ObjId \<rightharpoonup> ObjSource"
  st_nextId :: nat
  st_closed :: bool

text \<open>\<open>Subscribe\<close>: how the stream of encrypted object bytes ends.\<close>

type_synonym Subscribe = "error + Payload"

definition getObj :: "Storage \<Rightarrow> ObjId \<Rightarrow> error + ObjSource" where
  "getObj st objId =
    (case st_objs st objId of
       None \<Rightarrow> Inl (StorageExc ''objNotFound'')
     | Some objSrc \<Rightarrow> Inr objSrc)"

definition saveObj :: "Storage \<Rightarrow> ObjId \<Rightarrow> int \<Rightarrow> Subscribe \<Rightarrow> (error + unit) \<times> Storage" where
  "saveObj st objId version encSub =
    (case encSub of
       Inl err \<Rightarrow> (Inl err, st)
     | Inr payload \<Rightarrow>
         (Inr (), st\<lparr>st_objs := (st_objs st)(objId \<mapsto>
                    \<lparr> src_version = version, src_payload = payload \<rparr>)\<rparr>))"

fun digits :: "nat \<Rightarrow> string" where
  "digits n =
    (if n < 10 then [''0123456789'' ! n]
     else digits (n div 10) @ [''0123456789'' ! (n mod 10)])"

declare digits.simps [simp del]

definition numberToString :: "int \<Rightarrow> string" where
  "numberToString i = (if i < 0 then CHR ''-'' # digits (nat (- i)) else digits (nat i))"

definition generateNewObjId :: "Storage \<Rightarrow> string \<times> Storage" where
  "generateNewObjId st =
    (''obj-'' @ digits (st_nextId st), st\<lparr>st_nextId := Suc (st_nextId st)\<rparr>)"

section \<open>File nodes (file-node.ts)\<close>

definition fileAttrsFrom :: "Payload \<Rightarrow> FileAttrs" where
  "fileAttrsFrom payload =
    \<lparr> fa_attrs = pl_attrs payload, fa_size = pl_size payload, fa_xattrs = pl_xattrs payload \<rparr>"

text \<open>
  \<open>FilePersistance.readBytes\<close>. \<open>start\<close> and \<open>end\<close> are \<open>number | undefined\<close>; the
  result record has the optional fields \<open>bytes\<close> and \<open>fileAttrs\<close>. When \<open>start\<close> is
  \<open>undefined\<close> the code sets \<open>start = 0\<close> and \<open>end = size\<close>; what follows the first
  \<open>if\<close>, from the test of \<open>typeof end\<close> on, is \<open>readBytesUpToEnd\<close>.
\<close>

definition readBytesUpToEnd ::
  "Payload \<Rightarrow> int \<Rightarrow> FileAttrs option \<Rightarrow> int \<Rightarrow> int option \<Rightarrow> error + (bytes option \<times> FileAttrs option)" where
  "readBytesUpToEnd payload fsize fileAttrs start end =
    (case end of
       Some e \<Rightarrow>
         (let end' = min fsize e
          in if end' \<le> start then Inr (None, fileAttrs)
             else Inr (Some (readSomeContentBytes payload start end'), fileAttrs))
     | None \<Rightarrow> Inr (Some (readSomeContentBytes payload start fsize), fileAttrs))"

definition FilePersistance_readBytes ::
  "ObjSource \<Rightarrow> int option \<Rightarrow> int option \<Rightarrow> bool \<Rightarrow> error + (bytes option \<times> FileAttrs option)" where
  "FilePersistance_readBytes objSrc start end getAttrs =
    (if (case start of Some s \<Rightarrow> s < 0 | None \<Rightarrow> False)
     then Inl (Error (''Parameter start has bad value: ''
                  @ (case start of Some s \<Rightarrow> numberToString s | None \<Rightarrow> ''undefined'')))
     else if (case end of Some e \<Rightarrow> e < 0 | None \<Rightarrow> False)
     then Inl (Error (''Parameter end has bad value: ''
                  @ (case end of Some e \<Rightarrow> numberToString e | None \<Rightarrow> ''undefined'')))
     else
       (let payload = readonlyPayload objSrc;
            size = pl_size payload;
            fileAttrs = (if getAttrs then Some (fileAttrsFrom payload) else None)
        in case start of
             None \<Rightarrow> readBytesUpToEnd payload size fileAttrs 0 (Some size)
           | Some s \<Rightarrow>
               if s \<ge> size then Inr (None, fileAttrs)
               else readBytesUpToEnd payload size fileAttrs s end))"

text \<open>
  The state of a \<open>FileNode\<close> object: the fields of \<open>NodeInFS\<close> that the file
  operations read and write, and \<open>fileSize\<close>. The key is left out: the payload model
  above has no encryption.
\<close>

record FileNode =
  fn_name :: string
  fn_objId :: string
  fn_version :: int
  fn_attrs :: CommonAttrs
  fn_xattrs :: "XAttrs option"
  fileSize :: int

datatype EventBody =
    Removed
  | EntryRenaming string string
  | EntryRemoval string "int option"
  | EntryAddition string "int option"
  | FileChange int

record FSEvent =
  ev_path :: string
  ev_body :: EventBody

text \<open>
  What a file operation works on: the node, the storage it lives in and the events the
  node has broadcast so far.
\<close>

record FileState =
  fnode :: FileNode
  fstorage :: Storage
  fevents :: "FSEvent list"

text \<open>
  Modelled from the spec: \<open>NodeInFS\<close> (node-in-fs.ts) is not among the sources.
  \<open>set_updated\<close> commits a version with its attributes into the node;
  \<open>get_params_for_update\<close> computes \<open>new_version = version + 1\<close>, applies the changes of
  extended attributes (removals, then sets) to a copy and stamps the modification time,
  leaving the live fields as they are; \<open>do_change\<close> runs a change under the node's
  lock, which in this sequential model is running the change.
\<close>

definition setUpdatedParams :: "FileNode \<Rightarrow> int \<Rightarrow> CommonAttrs \<Rightarrow> XAttrs option \<Rightarrow> FileNode" where
  "setUpdatedParams n version attrs xattrs =
    n\<lparr>fn_version := version, fn_attrs := attrs, fn_xattrs := xattrs\<rparr>"

record XAttrsChanges =
  xa_set :: "(string \<times> string) list"
  xa_remove :: "string list"

definition getXAttrsForUpdate :: "XAttrs option \<Rightarrow> XAttrsChanges option \<Rightarrow> XAttrs option" where
  "getXAttrsForUpdate xattrs changes =
    (case changes of
       None \<Rightarrow> xattrs
     | Some ch \<Rightarrow>
         Some (fold (\<lambda>(k, v). AList.update k v) (xa_set ch)
                 (filter (\<lambda>(k, v). k \<notin> set (xa_remove ch))
                    (case xattrs of None \<Rightarrow> [] | Some xs \<Rightarrow> xs))))"

definition getParamsForUpdate ::
  "FileNode \<Rightarrow> XAttrsChanges option \<Rightarrow> int \<Rightarrow> CommonAttrs \<times> XAttrs option \<times> int" where
  "getParamsForUpdate n changes now =
    ((fn_attrs n)\<lparr>mtime := now\<rparr>, getXAttrsForUpdate (fn_xattrs n) changes, fn_version n + 1)"

definition setUpdatedState :: "FileNode \<Rightarrow> int \<Rightarrow> FileAttrs \<Rightarrow> FileNode" where
  "setUpdatedState n version fileAttrs =
    setUpdatedParams (n\<lparr>fileSize := fa_size fileAttrs\<rparr>) version
      (fa_attrs fileAttrs) (fa_xattrs fileAttrs)"

text \<open>
  \<open>FileNode.readBytes\<close>. The version of the result is \<open>undefined\<close> (\<open>None\<close>) on a
  storage that is neither synced nor local.
\<close>

definition FileNode_readBytes ::
  "FileState \<Rightarrow> int option \<Rightarrow> int option \<Rightarrow> (error + (bytes option \<times> int option)) \<times> FileState" where
  "FileNode_readBytes s start end =
    (case getObj (fstorage s) (Some (fn_objId (fnode s))) of
       Inl e \<Rightarrow> (Inl e, s)
     | Inr objSrc \<Rightarrow>
         if st_type (fstorage s) = Synced \<or> st_type (fstorage s) = Local then
           (let version = src_version objSrc in
            if fn_version (fnode s) < version then
              (case FilePersistance_readBytes objSrc start end True of
                 Inl e \<Rightarrow> (Inl e, s)
               | Inr (bytes, fileAttrs) \<Rightarrow>
                   (case fileAttrs of
                      None \<Rightarrow> (Inl (Error ''TypeError''), s)
                    | Some fa \<Rightarrow>
                        (Inr (bytes, Some version),
                         s\<lparr>fnode := setUpdatedState (fnode s) version fa\<rparr>)))
            else
              (case FilePersistance_readBytes objSrc start end False of
                 Inl e \<Rightarrow> (Inl e, s)
               | Inr (bytes, fileAttrs) \<Rightarrow> (Inr (bytes, Some version), s)))
         else
           (case FilePersistance_readBytes objSrc start end False of
              Inl e \<Rightarrow> (Inl e, s)
            | Inr (bytes, fileAttrs) \<Rightarrow> (Inr (bytes, None), s)))"

definition broadcastEvent :: "FileState \<Rightarrow> FSEvent \<Rightarrow> FileState" where
  "broadcastEvent s ev = s\<lparr>fevents := fevents s @ [ev]\<rparr>"

text \<open>
  \<open>FileNode.savingObjInsideChange\<close>. \<open>newSize\<close> is the value that the promise of the
  new size resolves to; it is read only after \<open>saveObj\<close> has resolved.
\<close>

definition savingObjInsideChange ::
  "FileState \<Rightarrow> CommonAttrs \<Rightarrow> int \<Rightarrow> XAttrs option \<Rightarrow> int \<Rightarrow> Subscribe \<Rightarrow> (error + unit) \<times> FileState" where
  "savingObjInsideChange s attrs newSize xattrs newVersion encSub =
    (case saveObj (fstorage s) (Some (fn_objId (fnode s))) newVersion encSub of
       (Inl e, st) \<Rightarrow> (Inl e, s\<lparr>fstorage := st\<rparr>)
     | (Inr u, st) \<Rightarrow>
         (let size = newSize;
              s1 = s\<lparr>fstorage := st,
                     fnode := setUpdatedState (fnode s) newVersion
                        \<lparr> fa_attrs = attrs, fa_size = size, fa_xattrs = xattrs \<rparr>\<rparr>
          in (Inr (), broadcastEvent s1
                \<lparr> ev_path = fn_name (fnode s1), ev_body = FileChange newVersion \<rparr>)))"

definition FileNode_save ::
  "FileState \<Rightarrow> bytes \<Rightarrow> XAttrsChanges option \<Rightarrow> int \<Rightarrow> (error + int) \<times> FileState" where
  "FileNode_save s content changes now =
    (case getParamsForUpdate (fnode s) changes now of
       (attrs, xattrs, newVersion) \<Rightarrow>
         (let encSub = Inr (writeWhole content newVersion attrs xattrs);
              newSize = int (length content)
          in case savingObjInsideChange s attrs newSize xattrs newVersion encSub of
               (Inl e, s') \<Rightarrow> (Inl e, s')
             | (Inr u, s') \<Rightarrow> (Inr (fn_version (fnode s')), s')))"


text \<open>
  Modelled from the spec: \<open>write_sink(version, attrs, xattrs, base?)\<close> of
  \<open>NodePersistance\<close> gives a streaming sink; with a base the new version is written
  against the base object, so the sink starts from the content of the base, and from no
  content without one. Of the sink (\<open>web3n.files.FileByteSink\<close>) the model keeps the
  content written so far, with \<open>getSize\<close>, \<open>splice\<close> and \<open>truncate\<close>.
\<close>

record FileByteSink =
  sink_content :: bytes

definition getFileSink :: "ObjSource option \<Rightarrow> FileByteSink" where
  "getFileSink base =
    \<lparr> sink_content = (case base of None \<Rightarrow> [] | Some objSrc \<Rightarrow> pl_content (readonlyPayload objSrc)) \<rparr>"

definition sink_getSize :: "FileByteSink \<Rightarrow> int" where
  "sink_getSize sink = int (length (sink_content sink))"

definition sink_splice :: "FileByteSink \<Rightarrow> nat \<Rightarrow> nat \<Rightarrow> bytes \<Rightarrow> FileByteSink" where
  "sink_splice sink pos del ins =
    sink\<lparr>sink_content := take pos (sink_content sink) @ ins @ drop (pos + del) (sink_content sink)\<rparr>"

definition sink_truncate :: "FileByteSink \<Rightarrow> nat \<Rightarrow> FileByteSink" where
  "sink_truncate sink n = sink\<lparr>sink_content := take n (sink_content sink)\<rparr>"

text \<open>
  \<open>FileNode.startMakingSinkInsideChange\<close>. \<open>truncate\<close> is \<open>boolean | undefined\<close> and
  \<open>currentVersion\<close> is \<open>number | undefined\<close>.
\<close>

definition startMakingSinkInsideChange ::
  "FileState \<Rightarrow> bool option \<Rightarrow> int option \<Rightarrow> XAttrsChanges option \<Rightarrow> int
     \<Rightarrow> error + (CommonAttrs \<times> XAttrs option \<times> int \<times> FileByteSink)" where
  "startMakingSinkInsideChange s trunc currentVersion changes now =
    (if (case currentVersion of Some cv \<Rightarrow> fn_version (fnode s) \<noteq> cv | None \<Rightarrow> False)
     then Inl (FileExc (makeVersionMismatchExc (fn_name (fnode s))))
     else
       (case getParamsForUpdate (fnode s) changes now of
          (attrs, xattrs, newVersion) \<Rightarrow>
            (if trunc = Some True \<or> fn_version (fnode s) = 0
             then Inr (attrs, xattrs, newVersion, getFileSink None)
             else (case getObj (fstorage s) (Some (fn_objId (fnode s))) of
                     Inl e \<Rightarrow> Inl e
                   | Inr base \<Rightarrow> Inr (attrs, xattrs, newVersion, getFileSink (Some base))))))"

text \<open>
  What \<open>writeSink\<close> returns, \<open>{ sink, version }\<close>, together with what the wrapped
  \<open>done\<close> of the sink has captured: the parameters of the change in progress.
\<close>

record SinkInChange =
  sic_sink :: FileByteSink
  sic_version :: int
  sic_attrs :: CommonAttrs
  sic_xattrs :: "XAttrs option"

definition FileNode_writeSink ::
  "FileState \<Rightarrow> bool option \<Rightarrow> int option \<Rightarrow> XAttrsChanges option \<Rightarrow> int
     \<Rightarrow> (error + SinkInChange) \<times> FileState" where
  "FileNode_writeSink s trunc currentVersion changes now =
    (case startMakingSinkInsideChange s trunc currentVersion changes now of
       Inl e \<Rightarrow> (Inl e, s)
     | Inr (attrs, xattrs, newVersion, sink) \<Rightarrow>
         (Inr \<lparr> sic_sink = sink, sic_version = newVersion, sic_attrs = attrs,
                 sic_xattrs = xattrs \<rparr>, s))"

text \<open>
  The wrapped \<open>sink.done(err?)\<close> that \<open>writeSink\<close> installs, with the completion of
  the change it awaits. \<open>err\<close> is \<open>None\<close> when \<open>done\<close> is called without an error.
  The original \<open>done\<close> ends the stream of encrypted bytes: with the error when there is
  one, with the whole object otherwise. The trace records what \<open>newSize\<close> was resolved
  to and the calls of the original \<open>done\<close>, among them the one registered with
  \<open>completion.catch(originalDone)\<close>.
\<close>

record DoneTrace =
  newSize_resolved :: int
  originalDone_calls :: "error option list"

definition sink_done ::
  "SinkInChange \<Rightarrow> FileState \<Rightarrow> error option \<Rightarrow> ((error + unit) \<times> DoneTrace) \<times> FileState" where
  "sink_done w s err =
    (case err of
       Some e \<Rightarrow>
         (let newSize = 0;
              encSub = Inl e
          in case savingObjInsideChange s (sic_attrs w) newSize (sic_xattrs w) (sic_version w) encSub of
               (Inl e', s') \<Rightarrow>
                 ((Inr (), \<lparr> newSize_resolved = newSize, originalDone_calls = [Some e, Some e'] \<rparr>), s')
             | (Inr u, s') \<Rightarrow>
                 ((Inr (), \<lparr> newSize_resolved = newSize, originalDone_calls = [Some e] \<rparr>), s'))
     | None \<Rightarrow>
         (let size = sink_getSize (sic_sink w);
              newSize = size;
              encSub = Inr \<lparr> pl_attrs = sic_attrs w, pl_size = size, pl_xattrs = sic_xattrs w,
                              pl_content = sink_content (sic_sink w) \<rparr>
          in case savingObjInsideChange s (sic_attrs w) newSize (sic_xattrs w) (sic_version w) encSub of
               (Inl e', s') \<Rightarrow>
                 ((Inl e', \<lparr> newSize_resolved = newSize, originalDone_calls = [None, Some e'] \<rparr>), s')
             | (Inr u, s') \<Rightarrow>
                 ((Inr (), \<lparr> newSize_resolved = newSize, originalDone_calls = [None] \<rparr>), s')))"


text \<open>A file node of three bytes at version 1 in a local storage, for the examples.\<close>

definition demoAttrs :: CommonAttrs where
  "demoAttrs = \<lparr> ctime = 1000, mtime = 1000 \<rparr>"

definition demoFileState :: FileState where
  "demoFileState =
    \<lparr> fnode = \<lparr> fn_name = ''f.txt'', fn_objId = ''obj-1'', fn_version = 1,
                  fn_attrs = demoAttrs, fn_xattrs = None, fileSize = 3 \<rparr>,
      fstorage = \<lparr> st_type = Local,
                    st_objs = [Some ''obj-1'' \<mapsto>
                      \<lparr> src_version = 1, src_payload = writeWhole [1, 2, 3] 1 demoAttrs None \<rparr>],
                    st_nextId = 2, st_closed = False \<rparr>,
      fevents = [] \<rparr>"

section \<open>The node tree and folder nodes\<close>

text \<open>
  Modelled from the spec: \<open>FolderNode\<close> (folder-node.ts) is not among the sources. A
  folder holds its object id and the table of its children by name, in the order of
  insertion; the loaded nodes form a tree. A folder object reached from the root is
  referred to by the names that lead to it. The encrypted folder payload in the store
  is not modelled: none of the operations below reads a folder object back.
\<close>

datatype Node =
    FileN FileNode
  | LinkN string
  | FolderN ObjId "(string \<times> Node) list"



fun nodeAt :: "Node \<Rightarrow> string list \<Rightarrow> Node option" where
  "nodeAt n [] = Some n"
| "nodeAt (FolderN i ch) (p # ps) =
    (case map_of ch p of None \<Rightarrow> None | Some child \<Rightarrow> nodeAt child ps)"
| "nodeAt n (p # ps) = None"

fun putAt :: "Node \<Rightarrow> string list \<Rightarrow> Node \<Rightarrow> Node" where
  "putAt n [] new = new"
| "putAt (FolderN i ch) (p # ps) new =
    (case map_of ch p of
       None \<Rightarrow> FolderN i ch
     | Some child \<Rightarrow> FolderN i (AList.update p (putAt child ps new) ch))"
| "putAt n (p # ps) new = n"

text \<open>Truthiness of the optional values that the code tests with \<open>if (x)\<close> or \<open>!x\<close>.\<close>

definition truthyFlag :: "bool option \<Rightarrow> bool" where
  "truthyFlag b = (b = Some True)"

definition truthyStr :: "string option \<Rightarrow> bool" where
  "truthyStr s = (case s of None \<Rightarrow> False | Some str \<Rightarrow> str \<noteq> [])"

text \<open>
  Modelled from the spec: \<open>get_folder_in_sub_tree(pathParts, create?, exclusive?)\<close> walks
  the parts from this folder. The empty path gives this folder. A missing part fails
  with \<open>not-found\<close> unless \<open>create\<close>, which makes the folder (with a new object id); an
  existing leaf with \<open>create\<close> and \<open>exclusive\<close> fails with \<open>already-exists\<close>; a part that
  exists and is not a folder fails with \<open>not-directory\<close>. The result is the folder
  found, next to this folder as the walk has left it and the storage.
\<close>

fun getFolderInThisSubTree ::
  "Node \<Rightarrow> string list \<Rightarrow> bool \<Rightarrow> bool \<Rightarrow> Storage \<Rightarrow> (error + Node) \<times> Node \<times> Storage" where
  "getFolderInThisSubTree folder [] create exclusive st = (Inr folder, folder, st)"
| "getFolderInThisSubTree (FolderN i ch) (p # ps) create exclusive st =
    (case map_of ch p of
       Some child \<Rightarrow>
         (if ps = [] \<and> create \<and> exclusive
          then (Inl (FileExc (makeFileException (excCode ''alreadyExists'') p None)),
                FolderN i ch, st)
          else (case child of
                  FolderN ci cch \<Rightarrow>
                    (case getFolderInThisSubTree (FolderN ci cch) ps create exclusive st of
                       (r, child', st') \<Rightarrow> (r, FolderN i (AList.update p child' ch), st'))
                | _ \<Rightarrow>
                    (Inl (FileExc (makeFileException (excCode ''notDirectory'') p None)),
                     FolderN i ch, st)))
     | None \<Rightarrow>
         (if create then
            (case generateNewObjId st of
               (newId, st1) \<Rightarrow>
                 (case getFolderInThisSubTree (FolderN (Some newId) []) ps create exclusive st1 of
                    (r, child', st') \<Rightarrow> (r, FolderN i (AList.update p child' ch), st')))
          else (Inl (FileExc (makeFileException (excCode ''notFound'') p None)),
                FolderN i ch, st)))"
| "getFolderInThisSubTree folder (p # ps) create exclusive st =
    (Inl (FileExc (makeFileException (excCode ''notDirectory'') p None)), folder, st)"

text \<open>
  Modelled from the spec: \<open>get_file(name, null_on_missing?)\<close> returns the file, or null
  if allowed, else fails with \<open>not-found\<close> or \<open>not-file\<close>; \<open>get_node(name)\<close> is
  analogous for a node of any kind; \<open>list()\<close> is the snapshot of the entries with their
  kinds. The name is \<open>undefined\<close> (\<open>None\<close>) when the path has no part.
\<close>

definition FolderNode_getFile :: "Node \<Rightarrow> string option \<Rightarrow> bool \<Rightarrow> error + FileNode option" where
  "FolderNode_getFile folder name nullOnMissing =
    (case (case folder of FolderN i ch \<Rightarrow> (case name of None \<Rightarrow> None | Some n \<Rightarrow> map_of ch n)
                        | _ \<Rightarrow> None) of
       None \<Rightarrow>
         (if nullOnMissing then Inr None
          else Inl (FileExc (makeFileException (excCode ''notFound'')
                      (case name of None \<Rightarrow> ''undefined'' | Some n \<Rightarrow> n) None)))
     | Some (FileN f) \<Rightarrow> Inr (Some f)
     | Some other \<Rightarrow>
         Inl (FileExc (makeFileException (excCode ''notFile'')
                (case name of None \<Rightarrow> ''undefined'' | Some n \<Rightarrow> n) None)))"



text \<open>
  \<open>FileNode.makeForNew\<close> with the constructor of \<open>FileNode\<close>: the parent id, the name
  and the new object id must be truthy. The attributes are those of
  \<open>CommonAttrs.makeForTimeNow()\<close>, both times set to the current time.
\<close>

definition FileNode_makeForNew ::
  "Storage \<Rightarrow> ObjId \<Rightarrow> string option \<Rightarrow> int \<Rightarrow> (error + FileNode) \<times> Storage" where
  "FileNode_makeForNew st parentId name now =
    (if \<not> truthyStr parentId then (Inl (Error ''Bad parent id''), st)
     else
       (case generateNewObjId st of
          (objId, st1) \<Rightarrow>
            (case name of
               None \<Rightarrow> (Inl (Error ''Bad file parameter(s) given''), st1)
             | Some fileName \<Rightarrow>
                 if fileName = [] \<or> objId = []
                 then (Inl (Error ''Bad file parameter(s) given''), st1)
                 else (Inr \<lparr> fn_name = fileName, fn_objId = objId, fn_version = 0,
                              fn_attrs = \<lparr> ctime = now, mtime = now \<rparr>, fn_xattrs = None,
                              fileSize = 0 \<rparr>, st1))))"

text \<open>
  Modelled from the spec: \<open>create_file(name, exclusive)\<close> allocates a new file node with
  a fresh object id and installs its entry in this folder; names are unique within a
  folder, so an entry of that name makes it fail with \<open>already-exists\<close>
  (\<open>getOrCreateFile\<close> calls it only when there is no such entry). The new node is made
  by \<open>FileNode.makeForNew\<close> with this folder's object id as the parent id. The result
  is the file with the folder as it has become.
\<close>

definition FolderNode_createFile ::
  "Node \<Rightarrow> string option \<Rightarrow> bool \<Rightarrow> Storage \<Rightarrow> int \<Rightarrow> (error + (FileNode \<times> Node)) \<times> Storage" where
  "FolderNode_createFile folder name exclusive st now =
    (case folder of
       FolderN i ch \<Rightarrow>
         (case (case name of None \<Rightarrow> None | Some n \<Rightarrow> map_of ch n) of
            Some existing \<Rightarrow>
              (Inl (FileExc (makeFileException (excCode ''alreadyExists'')
                      (case name of None \<Rightarrow> ''undefined'' | Some n \<Rightarrow> n) None)), st)
          | None \<Rightarrow>
              (case FileNode_makeForNew st i name now of
                 (Inl e, st1) \<Rightarrow> (Inl e, st1)
               | (Inr file, st1) \<Rightarrow>
                   (Inr (file, FolderN i (AList.update (fn_name file) (FileN file) ch)), st1)))
     | _ \<Rightarrow> (Inl (Error ''TypeError''), st))"

section \<open>The file system object (\<open>XspFS\<close> with its \<open>V\<close>)\<close>

record FileFlags =
  ff_create :: "bool option"
  ff_exclusive :: "bool option"
  ff_truncate :: "bool option"
  ff_currentVersion :: "int option"

definition WRITE_NONEXCL_FLAGS :: FileFlags where
  "WRITE_NONEXCL_FLAGS =
    \<lparr> ff_create = Some True, ff_exclusive = Some False, ff_truncate = Some True,
      ff_currentVersion = None \<rparr>"

definition noFlags :: FileFlags where
  "noFlags = \<lparr> ff_create = None, ff_exclusive = None, ff_truncate = None,
               ff_currentVersion = None \<rparr>"

text \<open>
  The \<open>XspFS\<close> object with its \<open>V\<close>, and what they point to. \<open>fs_store\<close> is the field
  \<open>store\<close>: \<open>Some ()\<close> while it refers to the storage, \<open>None\<close> once it is \<open>undefined\<close>;
  the \<open>Storage\<close> object itself, which the nodes share, is \<open>the_storage\<close>.
  \<open>v_rootNode\<close> is the field \<open>rootNode\<close> of \<open>V\<close>, holding the root folder with the
  loaded tree. \<open>fsObs_done\<close> tells that the broadcast of \<open>close\<close> has completed;
  \<open>broadcasts\<close> are the file events published so far.
\<close>

record FSState =
  fs_name :: string
  fs_writable :: bool
  fs_store :: "unit option"
  v_rootNode :: "Node option"
  fsObs_done :: bool
  the_storage :: Storage
  broadcasts :: "FSEvent list"

definition XspFS_storage :: "FSState \<Rightarrow> error + Storage" where
  "XspFS_storage st =
    (case fs_store st of
       None \<Rightarrow> Inl (FileExc (makeFileException (excCode ''storageClosed'') (fs_name st) None))
     | Some u \<Rightarrow> Inr (the_storage st))"

definition V_close :: "FSState \<Rightarrow> FSState" where
  "V_close st = st\<lparr>v_rootNode := None\<rparr>"

definition XspFS_close :: "FSState \<Rightarrow> FSState" where
  "XspFS_close st = (V_close st)\<lparr>fs_store := None, fsObs_done := True\<rparr>"

definition getRootIfNotClosed :: "FSState \<Rightarrow> string \<Rightarrow> error + Node" where
  "getRootIfNotClosed st excPath =
    (case v_rootNode st of
       None \<Rightarrow> Inl (FileExc (makeFileException (excCode ''storageClosed'') excPath None))
     | Some root \<Rightarrow> Inr root)"

text \<open>
  \<open>V.getOrCreateFile\<close>. The file node it returns is referred to by the parts that
  lead to it from the root.
\<close>

definition fileRef :: "string list \<Rightarrow> string option \<Rightarrow> string list" where
  "fileRef folderPath fileName =
    folderPath @ (case fileName of None \<Rightarrow> [] | Some name \<Rightarrow> [name])"

definition V_getOrCreateFile ::
  "FSState \<Rightarrow> string \<Rightarrow> FileFlags \<Rightarrow> int \<Rightarrow> (error + string list) \<times> FSState" where
  "V_getOrCreateFile st path flags now =
    (case split path of
       (folderPath, fileName) \<Rightarrow>
         (let create = truthyFlag (ff_create flags);
              exclusive = truthyFlag (ff_exclusive flags)
          in case getRootIfNotClosed st path of
               Inl e \<Rightarrow> (Inl e, st)
             | Inr root \<Rightarrow>
                 (case getFolderInThisSubTree root folderPath create False (the_storage st) of
                    (Inl e, root1, sto1) \<Rightarrow>
                      (Inl (setExcPath path e), st\<lparr>v_rootNode := Some root1, the_storage := sto1\<rparr>)
                  | (Inr folder, root1, sto1) \<Rightarrow>
                      (let st1 = st\<lparr>v_rootNode := Some root1, the_storage := sto1\<rparr>;
                           nullOnMissing = create
                       in case FolderNode_getFile folder fileName nullOnMissing of
                            Inl e \<Rightarrow> (Inl (setExcPath path e), st1)
                          | Inr (Some file) \<Rightarrow>
                              (if exclusive
                               then (Inl (FileExc (makeFileException (excCode ''alreadyExists'')
                                             path None)), st1)
                               else (Inr (fileRef folderPath fileName), st1))
                          | Inr None \<Rightarrow>
                              (case FolderNode_createFile folder fileName exclusive sto1 now of
                                 (Inl e, sto2) \<Rightarrow> (Inl e, st1\<lparr>the_storage := sto2\<rparr>)
                               | (Inr (file, folder'), sto2) \<Rightarrow>
                                   (Inr (fileRef folderPath fileName),
                                    st1\<lparr>v_rootNode := Some (putAt root1 folderPath folder'),
                                        the_storage := sto2\<rparr>))))))"

text \<open>
  A method of the \<open>FileNode\<close> that the parts refer to: it runs on the node, the
  storage and the events, and the node takes its new state in the tree.
\<close>

definition onFile ::
  "FSState \<Rightarrow> string list \<Rightarrow> (FileState \<Rightarrow> (error + 'a) \<times> FileState) \<Rightarrow> (error + 'a) \<times> FSState" where
  "onFile st ref method =
    (case (case v_rootNode st of None \<Rightarrow> None | Some root \<Rightarrow> nodeAt root ref) of
       Some (FileN f) \<Rightarrow>
         (case method \<lparr> fnode = f, fstorage = the_storage st, fevents = broadcasts st \<rparr> of
            (r, s') \<Rightarrow>
              (r, st\<lparr>v_rootNode := map_option (\<lambda>root. putAt root ref (FileN (fnode s'))) (v_rootNode st),
                     the_storage := fstorage s', broadcasts := fevents s'\<rparr>))
     | _ \<Rightarrow> (Inl (Error ''TypeError''), st))"

definition V_writeBytes ::
  "FSState \<Rightarrow> string \<Rightarrow> bytes \<Rightarrow> FileFlags \<Rightarrow> int \<Rightarrow> (error + int) \<times> FSState" where
  "V_writeBytes st path content flags now =
    (case V_getOrCreateFile st path flags now of
       (Inl e, st1) \<Rightarrow> (Inl e, st1)
     | (Inr f, st1) \<Rightarrow> onFile st1 f (\<lambda>s. FileNode_save s content None now))"

definition V_readBytes ::
  "FSState \<Rightarrow> string \<Rightarrow> int option \<Rightarrow> int option \<Rightarrow> int
     \<Rightarrow> (error + (bytes option \<times> int option)) \<times> FSState" where
  "V_readBytes st path start end now =
    (case V_getOrCreateFile st path noFlags now of
       (Inl e, st1) \<Rightarrow> (Inl e, st1)
     | (Inr file, st1) \<Rightarrow> onFile st1 file (\<lambda>s. FileNode_readBytes s start end))"













text \<open>
  \<open>XspFS.makeNewRoot\<close>: a writable file system on a new, empty root folder, whose
  object id is \<open>null\<close>.
\<close>

definition makeNewRoot :: "Storage \<Rightarrow> FSState" where
  "makeNewRoot storage =
    \<lparr> fs_name = [], fs_writable = True, fs_store = Some (), v_rootNode = Some (FolderN None []),
      fsObs_done = False, the_storage = storage, broadcasts = [] \<rparr>"

definition newStorage :: "StorageType \<Rightarrow> Storage" where
  "newStorage t = \<lparr> st_type = t, st_objs = Map.empty, st_nextId = 1, st_closed = False \<rparr>"

section \<open>The map from object ids to paths of \<open>watchTree\<close> (\<open>ObjIdToPathMap\<close>)\<close>

text \<open>
  The two JavaScript \<open>Map\<close>s, as lists of entries in the order of insertion.
  \<open>set\<close> replaces the value of a key in place or appends a new entry, \<open>delete\<close>
  removes the entry. A key of \<open>map\<close> is an \<open>ObjId\<close> or \<open>undefined\<close> (\<open>None\<close>), a value
  a string or \<open>undefined\<close>: the code stores \<open>moveInfo.objId!\<close> and
  \<open>moveInfo.newPath!\<close>, either of which can be absent in a \<open>moveInfo\<close>.
\<close>

record MoveInfo =
  mi_newPath :: "string option"
  mi_objId :: "ObjId option"

record ObjIdToPathMap =
  otp_map :: "(ObjId option \<times> string option) list"
  otp_moves :: "(int \<times> MoveInfo) list"

definition emptyObjIdToPathMap :: ObjIdToPathMap where
  "emptyObjIdToPathMap = \<lparr> otp_map = [], otp_moves = [] \<rparr>"

text \<open>\<open>Map.get\<close>: \<open>undefined\<close> for a missing key, else the value, which may be \<open>undefined\<close>.\<close>

definition Map_get :: "('k \<times> 'v option) list \<Rightarrow> 'k \<Rightarrow> 'v option" where
  "Map_get entries k = (case map_of entries k of None \<Rightarrow> None | Some v \<Rightarrow> v)"

record NodeEvent =
  ne_objId :: ObjId
  ne_parentObjId :: "ObjId option"
  ne_event :: FSEvent

definition truthyId :: "ObjId option \<Rightarrow> bool" where
  "truthyId objId = (case objId of Some (Some s) \<Rightarrow> s \<noteq> [] | _ \<Rightarrow> False)"

fun findObjIdByPath :: "(ObjId option \<times> string option) list \<Rightarrow> string \<Rightarrow> ObjId option" where
  "findObjIdByPath [] path = None"
| "findObjIdByPath ((objId, p) # entries) path =
    (if p = Some path then objId else findObjIdByPath entries path)"

text \<open>
  \<open>recursiveIdAndPathList\<close>, over the entries of \<open>folder.list()\<close> in their order: a
  file or a link does nothing, a folder is loaded and listed in turn. The argument is
  a \<open>FolderNode\<close>; a node that is not one has no listing here.
\<close>

fun recursiveIdAndPathList :: "Node \<Rightarrow> string \<Rightarrow> (ObjId \<times> string) list" where
  "recursiveIdAndPathList (FolderN objId ch) path =
    (objId, path) #
      concat (map (\<lambda>(name, child).
                (case child of
                   FolderN ci cch \<Rightarrow> recursiveIdAndPathList child (path @ ''/'' @ name)
                 | _ \<Rightarrow> [])) ch)"
| "recursiveIdAndPathList (FileN f) path = []"
| "recursiveIdAndPathList (LinkN l) path = []"

declare recursiveIdAndPathList.simps [simp del]

definition fillFromTree :: "ObjIdToPathMap \<Rightarrow> Node \<Rightarrow> ObjIdToPathMap" where
  "fillFromTree m root =
    m\<lparr>otp_map := fold (\<lambda>(objId, path). AList.update (Some objId) (Some path))
                     (recursiveIdAndPathList root ''.'') (otp_map m)\<rparr>"

definition getPathCorrectingTreeMap ::
  "ObjIdToPathMap \<Rightarrow> NodeEvent \<Rightarrow> string option \<times> ObjIdToPathMap" where
  "getPathCorrectingTreeMap m nev =
    (let event = ne_event nev;
         objId = Some (ne_objId nev);
         path = Map_get (otp_map m) objId
     in if truthyStr path then
          (let pth = (case path of None \<Rightarrow> [] | Some p \<Rightarrow> p)
           in case ev_body event of
                Removed \<Rightarrow> (path, m\<lparr>otp_map := AList.delete objId (otp_map m)\<rparr>)
              | EntryRenaming oldName newName \<Rightarrow>
                  (let child = findObjIdByPath (otp_map m) (pth @ ''/'' @ oldName)
                   in if truthyId child
                      then (path, m\<lparr>otp_map := AList.update child (Some (pth @ ''/'' @ newName))
                                                (otp_map m)\<rparr>)
                      else (path, m))
              | EntryRemoval name moveLabel \<Rightarrow>
                  (case moveLabel of
                     None \<Rightarrow> (path, m)
                   | Some label \<Rightarrow>
                       if label = 0 then (path, m)
                       else
                         (let child = findObjIdByPath (otp_map m) (pth @ ''/'' @ name)
                          in if truthyId child then
                               (case map_of (otp_moves m) label of
                                  Some moveInfo \<Rightarrow>
                                    (path, m\<lparr>otp_map := AList.update child (mi_newPath moveInfo)
                                                            (otp_map m),
                                             otp_moves := AList.delete label (otp_moves m)\<rparr>)
                                | None \<Rightarrow>
                                    (path, m\<lparr>otp_moves := AList.update label
                                               \<lparr> mi_newPath = None, mi_objId = child \<rparr>
                                               (otp_moves m)\<rparr>))
                             else (path, m)))
              | EntryAddition name moveLabel \<Rightarrow>
                  (let newPath = pth @ ''/'' @ name
                   in case moveLabel of
                        None \<Rightarrow> (path, m)
                      | Some label \<Rightarrow>
                          if label = 0 then (path, m)
                          else
                            (case map_of (otp_moves m) label of
                               Some moveInfo \<Rightarrow>
                                 (path, m\<lparr>otp_map := AList.update (mi_objId moveInfo) (Some newPath)
                                                         (otp_map m),
                                          otp_moves := AList.delete label (otp_moves m)\<rparr>)
                             | None \<Rightarrow>
                                 (path, m\<lparr>otp_moves := AList.update label
                                            \<lparr> mi_newPath = Some newPath, mi_objId = None \<rparr>
                                            (otp_moves m)\<rparr>)))
              | FileChange newVersion \<Rightarrow> (path, m))
        else
          (let parentPath = Map_get (otp_map m) (ne_parentObjId nev)
           in if \<not> truthyStr parentPath \<or> ev_body event = Removed then (None, m)
              else
                (let path' = (case parentPath of None \<Rightarrow> [] | Some p \<Rightarrow> p) @ ''/'' @ ev_path event
                 in (Some path', m\<lparr>otp_map := AList.update objId (Some path') (otp_map m)\<rparr>))))"

text \<open>
  The \<open>map\<close> and \<open>filter\<close> stages of the observable of \<open>watchTree\<close>, over the
  node events in the order of their delivery: an event whose path comes out truthy is
  passed on with that path, any other event is dropped.
\<close>

fun watchTreeEvents :: "ObjIdToPathMap \<Rightarrow> NodeEvent list \<Rightarrow> FSEvent list \<times> ObjIdToPathMap" where
  "watchTreeEvents m [] = ([], m)"
| "watchTreeEvents m (nodeEvent # rest) =
    (case getPathCorrectingTreeMap m nodeEvent of
       (path, m1) \<Rightarrow>
         (case watchTreeEvents m1 rest of
            (out, m2) \<Rightarrow>
              (case path of
                 None \<Rightarrow> (out, m2)
               | Some p \<Rightarrow>
                   if p = [] then (out, m2)
                   else ((ne_event nodeEvent)\<lparr>ev_path := p\<rparr> # out, m2))))"

text \<open>The path of the folder reached from a folder of path \<open>base\<close> through \<open>names\<close>.\<close>

definition pathOf :: "string \<Rightarrow> string list \<Rightarrow> string" where
  "pathOf base names = foldl (\<lambda>p name. p @ ''/'' @ name) base names"

text \<open>Names are unique within a folder, in every folder of the tree.\<close>

fun uniqueNames :: "Node \<Rightarrow> bool" where
  "uniqueNames (FolderN objId ch) =
    (distinct (map fst ch) \<and> list_all (\<lambda>(name, child). uniqueNames child) ch)"
| "uniqueNames (FileN f) = True"
| "uniqueNames (LinkN l) = True"

text \<open>
  A tree for the examples: the root holds the folders \<open>x\<close> and \<open>y\<close> and a link; \<open>x\<close>
  holds the file \<open>f\<close> and the folder \<open>d\<close>.
\<close>

definition demoFile :: FileNode where
  "demoFile = \<lparr> fn_name = ''f'', fn_objId = ''id-f'', fn_version = 1, fn_attrs = demoAttrs,
                fn_xattrs = None, fileSize = 3 \<rparr>"

definition demoTree :: Node where
  "demoTree =
    FolderN None
      [(''x'', FolderN (Some ''id-x'') [(''f'', FileN demoFile), (''d'', FolderN (Some ''id-d'') [])]),
       (''y'', FolderN (Some ''id-y'') []),
       (''l'', LinkN ''id-l'')]"

section \<open>The other operations of \<open>XspFS\<close> and \<open>V\<close>\<close>





text \<open>
  Modelled from the spec: \<open>LinkParameters\<close> (lib-client/files) is not among the
  sources. The specification gives it as \<open>{storageType, readonly?, isFile? | isFolder?,
  params}\<close> with the name and the object id of the target in \<open>params\<close>. The key is
  left out, as everywhere in this model.
\<close>

record LinkParameters =
  lp_storageType :: StorageType
  lp_readonly :: "bool option"
  lp_isFile :: bool
  lp_isFolder :: bool
  lp_name :: string
  lp_objId :: ObjId

text \<open>
  What \<open>link\<close> is given as its target, a \<open>File\<close> or an \<open>FS\<close> of any implementation:
  a value without a function \<open>getLinkParams\<close>, or a linkable object, which is
  represented by what its \<open>getLinkParams()\<close> gives, the parameters or the exception
  thrown. A \<open>SymLink\<close> is represented by what its \<open>target()\<close> gives.
\<close>

datatype Target = NotLinkable | Linkable "error + LinkParameters"

record SymLink =
  sl_target :: "error + Target"

text \<open>
  Modelled from the spec: \<open>payload.makeFileByteSource()\<close> is not among the sources.
  The specification gives \<open>file_byte_source()\<close> of the payload handle as the access to
  the content; a \<open>FileByteSource\<close> is kept as the content bytes it reads.
\<close>

type_synonym FileByteSource = bytes




text \<open>
  The values of types declared outside this repository that the operations only pass
  on: the status that \<open>node.sync()\<close> gives, the criteria and the collection of
  \<open>select\<close>, and the value that \<open>JSON.parse\<close> gives.
\<close>

typedecl SyncStatus
typedecl SelectCriteria
typedecl FSCollection
typedecl JSONValue

text \<open>
  The rest of what the operations below call is neither among the sources nor pinned
  down by the specification: methods of \<open>FolderNode\<close>, \<open>LinkNode\<close> and \<open>NodeInFS\<close>,
  \<open>selectInFS\<close>, \<open>pipe\<close>, \<open>utf8\<close> and \<open>JSON.parse\<close>. They are taken as parameters,
  one field of this record for each. A method that changes nodes takes the state of the
  file system, with the parts that refer to the node it is called on, and gives the
  state back; a method that reads takes the node. An error thrown by \<open>utf8.open\<close> or
  \<open>JSON.parse\<close> is given by the description that becomes the cause of the file
  exception.
\<close>

record Externals =
  FolderNode_removeChild :: "FSState \<Rightarrow> string list \<Rightarrow> Node \<Rightarrow> (error + unit) \<times> FSState"
  FolderNode_hasChild :: "Node \<Rightarrow> string \<Rightarrow> bool \<Rightarrow> error + bool"
  FolderNode_moveChildTo ::
    "FSState \<Rightarrow> string list \<Rightarrow> string \<Rightarrow> string list \<Rightarrow> string \<Rightarrow> (error + unit) \<times> FSState"
  FolderNode_createLink ::
    "FSState \<Rightarrow> string list \<Rightarrow> string option \<Rightarrow> LinkParameters \<Rightarrow> (error + unit) \<times> FSState"
  FolderNode_getParamsForLink :: "Node \<Rightarrow> error + LinkParameters"
  LinkNode_read :: "Node \<Rightarrow> error + SymLink"
  NodeInFS_sync :: "Node \<Rightarrow> error + SyncStatus option"
  NodeInFS_getAttrs :: "Node \<Rightarrow> CommonAttrs"
  NodeInFS_version :: "Node \<Rightarrow> int"
  NodeInFS_updateXAttrs :: "FSState \<Rightarrow> string list \<Rightarrow> XAttrsChanges \<Rightarrow> (error + int) \<times> FSState"
  NodeInFS_getXAttr :: "Node \<Rightarrow> string \<Rightarrow> string option"
  NodeInFS_listXAttrs :: "Node \<Rightarrow> string list"
  selectInFS :: "FSState \<Rightarrow> string \<Rightarrow> SelectCriteria \<Rightarrow> (error + FSCollection) \<times> FSState"
  pipe :: "FileByteSource \<Rightarrow> FileByteSink \<Rightarrow> FSState \<Rightarrow> (error + unit) \<times> FSState"
  utf8_pack :: "string \<Rightarrow> bytes"
  utf8_open :: "bytes \<Rightarrow> string + string"
  JSON_parse :: "string \<Rightarrow> string + JSONValue"




definition XspFS_select ::
  "Externals \<Rightarrow> FSState \<Rightarrow> string \<Rightarrow> SelectCriteria \<Rightarrow> (error + FSCollection) \<times> FSState" where
  "XspFS_select ext st path criteria = selectInFS ext st path criteria"













































section \<open>Auxiliary definitions for the statements\<close>

text \<open>
  What \<open>save\<close> makes of a file node, and the object it hands to the store: the next
  version, the modification time stamped, the size of the content.
\<close>

definition savedFile :: "FileNode \<Rightarrow> bytes \<Rightarrow> int \<Rightarrow> FileNode" where
  "savedFile f content now =
    f\<lparr>fileSize := int (length content), fn_version := fn_version f + 1,
      fn_attrs := (fn_attrs f)\<lparr>mtime := now\<rparr>, fn_xattrs := fn_xattrs f\<rparr>"

definition savedObject :: "FileNode \<Rightarrow> bytes \<Rightarrow> int \<Rightarrow> ObjSource" where
  "savedObject f content now =
    \<lparr> src_version = fn_version f + 1,
      src_payload = writeWhole content (fn_version f + 1) ((fn_attrs f)\<lparr>mtime := now\<rparr>) (fn_xattrs f) \<rparr>"

text \<open>A new file system on an empty storage of a given type, for the examples.\<close>

definition demoFS :: "StorageType \<Rightarrow> FSState" where
  "demoFS t = makeNewRoot (newStorage t)"

text \<open>
  The exception that \<open>getRootIfNotClosed\<close> and \<open>storage()\<close> throw:
  \<open>makeFileException(excCode.storageClosed, path)\<close>.
\<close>

definition storageClosedExc :: "string \<Rightarrow> error" where
  "storageClosedExc path = FileExc (makeFileException (excCode ''storageClosed'') path None)"

text \<open>The part of the listing that one entry of a folder contributes.\<close>

definition listOfChild :: "string \<Rightarrow> string \<times> Node \<Rightarrow> (ObjId \<times> string) list" where
  "listOfChild path entry =
    (case entry of (name, child) \<Rightarrow>
       (case child of
          FolderN ci cch \<Rightarrow> recursiveIdAndPathList child (path @ ''/'' @ name)
        | _ \<Rightarrow> []))"

text \<open>
  The node events of a move: the removal of the entry \<open>name\<close> from the folder
  \<open>folderId\<close> and the addition of an entry to another, with the label of the move; and
  the map after the move of the object \<open>cid\<close> to \<open>newPath\<close>.
\<close>

definition removalOf :: "ObjId \<Rightarrow> ObjId option \<Rightarrow> string \<Rightarrow> string \<Rightarrow> int \<Rightarrow> NodeEvent" where
  "removalOf folderId parentId evPath name label =
    \<lparr> ne_objId = folderId, ne_parentObjId = parentId,
      ne_event = \<lparr> ev_path = evPath, ev_body = EntryRemoval name (Some label) \<rparr> \<rparr>"

definition additionOf :: "ObjId \<Rightarrow> ObjId option \<Rightarrow> string \<Rightarrow> string \<Rightarrow> int \<Rightarrow> NodeEvent" where
  "additionOf folderId parentId evPath name label =
    \<lparr> ne_objId = folderId, ne_parentObjId = parentId,
      ne_event = \<lparr> ev_path = evPath, ev_body = EntryAddition name (Some label) \<rparr> \<rparr>"

definition movedMap :: "ObjIdToPathMap \<Rightarrow> string \<Rightarrow> string \<Rightarrow> ObjIdToPathMap" where
  "movedMap m cid newPath = m\<lparr>otp_map := AList.update (Some (Some cid)) (Some newPath) (otp_map m)\<rparr>"

text \<open>The map of a watch on the tree of the examples.\<close>

definition demoMap :: ObjIdToPathMap where
  "demoMap = fillFromTree emptyObjIdToPathMap demoTree"





section \<open>Properties of the exception constructor\<close>

lemma codeFlags_makeFileException:
  "codeFlags (makeFileException c p ca) = map (\<lambda>(prop, v). c = Some v) Code"
  by (simp add: codeFlags_def makeFileException_def excCode_def Code_def flagOf_def
      bareFileException_def Let_def)

lemma makeFileException_fields:
  "runtimeException (makeFileException c p ca)
   \<and> exc_type (makeFileException c p ca) = ''file''
   \<and> exc_code (makeFileException c p ca) = c
   \<and> exc_path (makeFileException c p ca) = p
   \<and> exc_cause (makeFileException c p ca) = ca
   \<and> \<not> versionMismatch (makeFileException c p ca)
   \<and> \<not> attrsNotEnabledInFS (makeFileException c p ca)"
  by (simp add: makeFileException_def bareFileException_def Let_def)

lemma Code_distinct: "distinct (map snd Code)"
  by (simp add: Code_def)

lemma count_matching_codes:
  "distinct (map snd tbl) \<Longrightarrow>
   length (filter (\<lambda>(k, v). c = Some v) tbl)
     = (if c \<in> set (map (Some \<circ> snd) tbl) then 1 else (0::nat))"
proof (induction tbl)
  case Nil
  then show ?case by simp
next
  case (Cons entry tbl)
  obtain k v where entry: "entry = (k, v)" by (cases entry)
  have d: "distinct (map snd tbl)" and fresh: "v \<notin> snd ` set tbl"
    using Cons.prems entry by simp_all
  show ?case
  proof (cases "c = Some v")
    case True
    then have "c \<notin> set (map (Some \<circ> snd) tbl)" using fresh by auto
    then have "length (filter (\<lambda>(k, v). c = Some v) tbl) = 0"
      using Cons.IH[OF d] by simp
    then show ?thesis using True entry by simp
  next
    case False
    then show ?thesis using Cons.IH[OF d] entry by simp
  qed
qed

lemma count_true_flags:
  "length (filter id (map f tbl)) = length (filter f tbl)"
  by (induction tbl) simp_all

text \<open>
  Claim C10. For every code, path and cause, \<open>makeFileException\<close> returns an exception
  with \<open>runtimeException\<close> true, type \<open>file\<close> and the given code, path and cause. Read
  in the order of the table \<open>Code\<close>, its flags are true exactly at the entries whose
  code string is the given code; the code strings of the table are pairwise distinct,
  so this is exactly one flag for a code of the table and no flag for any other code
  (and for \<open>undefined\<close>). The two flags that no code stands for stay unset.
\<close>

theorem makeFileException_sets_flag_of_code:
  "runtimeException (makeFileException c p ca)
   \<and> exc_type (makeFileException c p ca) = ''file''
   \<and> exc_code (makeFileException c p ca) = c
   \<and> exc_path (makeFileException c p ca) = p
   \<and> exc_cause (makeFileException c p ca) = ca
   \<and> codeFlags (makeFileException c p ca) = map (\<lambda>(prop, v). c = Some v) Code
   \<and> distinct (map snd Code)
   \<and> length (filter id (codeFlags (makeFileException c p ca)))
       = (if c \<in> set (map (Some \<circ> snd) Code) then 1 else 0)
   \<and> \<not> versionMismatch (makeFileException c p ca)
   \<and> \<not> attrsNotEnabledInFS (makeFileException c p ca)"
proof -
  have "length (filter id (codeFlags (makeFileException c p ca)))
       = (if c \<in> set (map (Some \<circ> snd) Code) then 1 else 0)"
    unfolding codeFlags_makeFileException count_true_flags
    by (rule count_matching_codes[OF Code_distinct])
  then show ?thesis
    using makeFileException_fields[of c p ca] codeFlags_makeFileException[of c p ca] Code_distinct
    by blast
qed

section \<open>Properties of path parsing\<close>

lemma split_on_no_sep: "sep \<notin> set s \<Longrightarrow> split_on sep s = [s]"
  by (induction s) auto

lemma split_on_append: "sep \<notin> set s \<Longrightarrow> split_on sep (s @ sep # t) = s # split_on sep t"
  by (induction s) auto

lemma split_on_pieces: "piece \<in> set (split_on sep s) \<Longrightarrow> sep \<notin> set piece"
  by (induction s arbitrary: piece) (auto split: if_splits list.splits)

lemma split_on_join_slash:
  "\<forall>s \<in> set segs. CHR ''/'' \<notin> set s \<Longrightarrow> segs \<noteq> [] \<Longrightarrow>
   split_on CHR ''/'' (join_slash segs) = segs"
proof (induction segs rule: join_slash.induct)
  case 1
  then show ?case by simp
next
  case (2 s)
  then show ?case by (simp add: split_on_no_sep)
next
  case (3 s t ts)
  then show ?case by (simp add: split_on_append)
qed

lemma plainSegments_butlast: "plainSegments res \<Longrightarrow> plainSegments (butlast res)"
  unfolding plainSegments_def by (blast dest: in_set_butlastD)

lemma plainSegments_snoc:
  "plainSegments res \<Longrightarrow> plainSegment seg \<Longrightarrow> CHR ''/'' \<notin> set seg \<Longrightarrow>
   plainSegments (res @ [seg])"
  unfolding plainSegments_def by simp

lemma normalizeSegments_plain:
  "plainSegments res \<Longrightarrow> \<forall>s \<in> set segs. CHR ''/'' \<notin> set s \<Longrightarrow>
   plainSegments (normalizeSegments res segs)"
proof (induction segs arbitrary: res)
  case Nil
  then show ?case by simp
next
  case (Cons seg segs)
  have rest: "\<forall>s \<in> set segs. CHR ''/'' \<notin> set s" and noslash: "CHR ''/'' \<notin> set seg"
    using Cons.prems(2) by simp_all
  consider (skip) "seg = [] \<or> seg = ''.''" | (up) "seg = ''..''" | (keep) "plainSegment seg"
    unfolding plainSegment_def by blast
  then show ?case
  proof cases
    case skip
    have "normalizeSegments res (seg # segs) = normalizeSegments res segs"
      using skip by auto
    then show ?thesis using Cons.IH[OF Cons.prems(1) rest] by simp
  next
    case up
    have "normalizeSegments res (seg # segs) = normalizeSegments (butlast res) segs"
      using up by simp
    then show ?thesis
      using Cons.IH[OF plainSegments_butlast[OF Cons.prems(1)] rest] by simp
  next
    case keep
    have "normalizeSegments res (seg # segs) = normalizeSegments (res @ [seg]) segs"
      using keep unfolding plainSegment_def by simp
    then show ?thesis
      using Cons.IH[OF plainSegments_snoc[OF Cons.prems(1) keep noslash] rest] by simp
  qed
qed

lemma splitPathIntoParts_normalized:
  "splitPathIntoParts path = normalizeSegments [] (split_on CHR ''/'' path)"
proof -
  let ?n = "normalizeSegments [] (split_on CHR ''/'' path)"
  have ok: "plainSegments ?n"
    by (rule normalizeSegments_plain) (auto simp: plainSegments_def dest: split_on_pieces)
  show ?thesis
  proof (cases "?n = []")
    case True
    then show ?thesis by (simp add: splitPathIntoParts_def posix_resolve_root_def)
  next
    case False
    have "split_on CHR ''/'' (CHR ''/'' # join_slash ?n) = [] # ?n"
      using split_on_join_slash[of ?n] ok False by (simp add: plainSegments_def)
    moreover have "filter (\<lambda>part. part \<noteq> []) ?n = ?n"
      using ok by (auto simp: plainSegments_def plainSegment_def intro: filter_True)
    ultimately show ?thesis by (simp add: splitPathIntoParts_def posix_resolve_root_def)
  qed
qed

lemma splitPathIntoParts_plain: "plainSegments (splitPathIntoParts path)"
  unfolding splitPathIntoParts_normalized
  by (rule normalizeSegments_plain) (auto simp: plainSegments_def dest: split_on_pieces)

lemma normalizeSegments_no_dots:
  "\<forall>s \<in> set segs. s = [] \<or> plainSegment s \<Longrightarrow>
   normalizeSegments res segs = res @ filter (\<lambda>part. part \<noteq> []) segs"
  by (induction segs arbitrary: res) (auto simp: plainSegment_def)

text \<open>
  Claim C8, as the code has it. The path is split on \<open>/\<close> and empty segments are
  discarded, but \<open>.\<close> and \<open>..\<close> are resolved, by \<open>posix.resolve\<close>: a \<open>.\<close> segment is
  dropped and a \<open>..\<close> segment removes the part before it (nothing at the root). No part
  of the result is empty, \<open>.\<close> or \<open>..\<close>, or holds a \<open>/\<close>; and a path that has no \<open>.\<close>
  and \<open>..\<close> segment gives exactly its non-empty segments.
\<close>

theorem splitPathIntoParts_resolves_dots:
  "splitPathIntoParts path = normalizeSegments [] (split_on CHR ''/'' path)
   \<and> (\<forall>part \<in> set (splitPathIntoParts path). plainSegment part \<and> CHR ''/'' \<notin> set part)
   \<and> ((\<forall>seg \<in> set (split_on CHR ''/'' path). seg = [] \<or> plainSegment seg) \<longrightarrow>
        splitPathIntoParts path = filter (\<lambda>part. part \<noteq> []) (split_on CHR ''/'' path))"
  using splitPathIntoParts_plain[of path] normalizeSegments_no_dots[of "split_on CHR ''/'' path" "[]"]
  by (simp add: splitPathIntoParts_normalized plainSegments_def)

theorem splitPathIntoParts_resolves_dots_witness:
  "splitPathIntoParts ''/a//b/'' = [''a'', ''b'']
   \<and> plainSegment ''a'' \<and> plainSegment ''b''
   \<and> split_on CHR ''/'' ''/a//b/'' = [[], ''a'', [], ''b'', []]
   \<and> splitPathIntoParts ''/a//b/'' = filter (\<lambda>part. part \<noteq> []) (split_on CHR ''/'' ''/a//b/'')"
  using splitPathIntoParts_resolves_dots[of "''/a//b/''"]
  by (simp add: plainSegment_def)

text \<open>
  The claim as the specification states it (\<open>.\<close> and \<open>..\<close> kept as ordinary names) fails
  on \<open>/a/../b\<close>: the parts are \<open>b\<close> alone, not \<open>a\<close>, \<open>..\<close>, \<open>b\<close>.
\<close>

theorem splitPathIntoParts_dotdot_counterexample:
  "splitPathIntoParts ''/a/../b'' = [''b'']
   \<and> filter (\<lambda>part. part \<noteq> []) (split_on CHR ''/'' ''/a/../b'') = [''a'', ''..'', ''b'']"
  by (simp add: splitPathIntoParts_def posix_resolve_root_def)


section \<open>Properties of file nodes\<close>

lemma FilePersistance_readBytes_bad_start:
  "v < 0 \<Longrightarrow> FilePersistance_readBytes objSrc (Some v) end getAttrs
     = Inl (Error (''Parameter start has bad value: '' @ numberToString v))"
  by (simp add: FilePersistance_readBytes_def)

lemma FilePersistance_readBytes_bad_end:
  "start = None \<or> (\<exists>u. start = Some u \<and> 0 \<le> u) \<Longrightarrow> v < 0 \<Longrightarrow>
   FilePersistance_readBytes objSrc start (Some v) getAttrs
     = Inl (Error (''Parameter end has bad value: '' @ numberToString v))"
  by (auto simp: FilePersistance_readBytes_def)

lemma FilePersistance_readBytes_bad_bound:
  assumes "(\<exists>v. start = Some v \<and> v < 0) \<or> (\<exists>v. end = Some v \<and> v < 0)"
  shows "\<exists>msg. \<forall>getAttrs. FilePersistance_readBytes objSrc start end getAttrs = Inl (Error msg)"
proof (cases "\<exists>v. start = Some v \<and> v < 0")
  case True
  then show ?thesis using FilePersistance_readBytes_bad_start by blast
next
  case False
  then obtain v where e: "end = Some v" "v < 0" using assms by blast
  have "start = None \<or> (\<exists>u. start = Some u \<and> 0 \<le> u)"
    using False by (cases start) auto
  then show ?thesis using FilePersistance_readBytes_bad_end[OF _ e(2)] e(1) by blast
qed

lemma FileNode_readBytes_error:
  assumes "getObj (fstorage s) (Some (fn_objId (fnode s))) = Inr objSrc"
    and "\<forall>getAttrs. FilePersistance_readBytes objSrc start end getAttrs = Inl e"
  shows "FileNode_readBytes s start end = (Inl e, s)"
  using assms by (simp add: FileNode_readBytes_def Let_def)

text \<open>
  Claim C7. A read with a supplied negative \<open>start\<close> or \<open>end\<close> fails with a plain
  \<open>Error\<close> that names the bad parameter and its value: \<open>start\<close> is checked first,
  then \<open>end\<close>, both before the payload is opened, so whatever the object is. Through
  \<open>FileNode.readBytes\<close> the same error comes out, with the node as it was, once the
  store has given the object.
\<close>

theorem readBytes_negative_bound_fails:
  "(\<forall>v. start = Some v \<and> v < 0 \<longrightarrow>
      FilePersistance_readBytes objSrc start end getAttrs
        = Inl (Error (''Parameter start has bad value: '' @ numberToString v)))
   \<and> (\<forall>v. (start = None \<or> (\<exists>u. start = Some u \<and> 0 \<le> u)) \<and> end = Some v \<and> v < 0 \<longrightarrow>
      FilePersistance_readBytes objSrc start end getAttrs
        = Inl (Error (''Parameter end has bad value: '' @ numberToString v)))
   \<and> (((\<exists>v. start = Some v \<and> v < 0) \<or> (\<exists>v. end = Some v \<and> v < 0)) \<and>
        getObj (fstorage s) (Some (fn_objId (fnode s))) = Inr objSrc \<longrightarrow>
        (\<exists>msg. FileNode_readBytes s start end = (Inl (Error msg), s)))"
proof (intro conjI allI impI)
  fix v assume "start = Some v \<and> v < 0"
  then show "FilePersistance_readBytes objSrc start end getAttrs
        = Inl (Error (''Parameter start has bad value: '' @ numberToString v))"
    using FilePersistance_readBytes_bad_start by blast
next
  fix v assume "(start = None \<or> (\<exists>u. start = Some u \<and> 0 \<le> u)) \<and> end = Some v \<and> v < 0"
  then show "FilePersistance_readBytes objSrc start end getAttrs
        = Inl (Error (''Parameter end has bad value: '' @ numberToString v))"
    using FilePersistance_readBytes_bad_end by blast
next
  assume a: "((\<exists>v. start = Some v \<and> v < 0) \<or> (\<exists>v. end = Some v \<and> v < 0)) \<and>
        getObj (fstorage s) (Some (fn_objId (fnode s))) = Inr objSrc"
  then obtain msg where "\<forall>getAttrs. FilePersistance_readBytes objSrc start end getAttrs = Inl (Error msg)"
    using FilePersistance_readBytes_bad_bound[of start "end" objSrc] by blast
  then have "FileNode_readBytes s start end = (Inl (Error msg), s)"
    using FileNode_readBytes_error a by blast
  then show "\<exists>msg. FileNode_readBytes s start end = (Inl (Error msg), s)" by blast
qed

theorem readBytes_negative_bound_fails_witness:
  "FilePersistance_readBytes \<lparr> src_version = 1, src_payload = writeWhole [1, 2, 3] 1 demoAttrs None \<rparr>
      (Some (- 1)) None False = Inl (Error ''Parameter start has bad value: -1'')
   \<and> FilePersistance_readBytes \<lparr> src_version = 1, src_payload = writeWhole [1, 2, 3] 1 demoAttrs None \<rparr>
      (Some 0) (Some (- 2)) False = Inl (Error ''Parameter end has bad value: -2'')
   \<and> (\<exists>msg. FileNode_readBytes demoFileState (Some (- 1)) None = (Inl (Error msg), demoFileState))"
  using readBytes_negative_bound_fails[of "Some (- 1)" "\<lparr> src_version = 1, src_payload = writeWhole [1, 2, 3] 1 demoAttrs None \<rparr>" None False demoFileState]
    readBytes_negative_bound_fails[of "Some 0" "\<lparr> src_version = 1, src_payload = writeWhole [1, 2, 3] 1 demoAttrs None \<rparr>" "Some (- 2)" False demoFileState]
  by (simp add: numberToString_def digits.simps demoFileState_def getObj_def)


lemma FilePersistance_readBytes_past_end:
  assumes "pl_size (src_payload objSrc) \<le> start" and "0 \<le> start"
    and "end = None \<or> (\<exists>e. end = Some e \<and> 0 \<le> e)"
  shows "FilePersistance_readBytes objSrc (Some start) end getAttrs
     = Inr (None, if getAttrs then Some (fileAttrsFrom (src_payload objSrc)) else None)"
  using assms by (auto simp: FilePersistance_readBytes_def readBytesUpToEnd_def readonlyPayload_def Let_def)

text \<open>
  Claim C6, as the code has it. For a file whose stored size is \<open>S\<close> with
  \<open>0 \<le> S \<le> start\<close>, and an \<open>end\<close> that is absent or not negative, the read does not
  raise once the store has given the object: it returns no bytes (\<open>bytes\<close> is
  \<open>undefined\<close>, not an empty array) with the version of the stored object, which is
  \<open>undefined\<close> on a storage that is neither local nor synced; and it refreshes the
  node's version, attributes and size exactly when the storage is versioned and the
  stored version is newer than the node's.
\<close>

theorem readBytes_past_end_gives_no_bytes:
  assumes "getObj (fstorage s) (Some (fn_objId (fnode s))) = Inr objSrc"
    and "pl_size (src_payload objSrc) = S" and "0 \<le> S" and "S \<le> start"
    and "end = None \<or> (\<exists>e. end = Some e \<and> 0 \<le> e)"
  shows "FileNode_readBytes s (Some start) end =
    (Inr (None, if st_type (fstorage s) = Share then None else Some (src_version objSrc)),
     if st_type (fstorage s) \<noteq> Share \<and> fn_version (fnode s) < src_version objSrc
     then s\<lparr>fnode := setUpdatedState (fnode s) (src_version objSrc)
                          (fileAttrsFrom (src_payload objSrc))\<rparr>
     else s)"
proof -
  have past: "pl_size (src_payload objSrc) \<le> start" and nn: "0 \<le> start"
    using assms(2-4) by simp_all
  note rb = FilePersistance_readBytes_past_end[OF past nn assms(5)]
  show ?thesis
  proof (cases "st_type (fstorage s)")
    case Local
    then show ?thesis using assms(1) rb by (simp add: FileNode_readBytes_def Let_def)
  next
    case Synced
    then show ?thesis using assms(1) rb by (simp add: FileNode_readBytes_def Let_def)
  next
    case Share
    then show ?thesis using assms(1) rb by (simp add: FileNode_readBytes_def Let_def)
  qed
qed

theorem readBytes_past_end_gives_no_bytes_witness:
  "getObj (fstorage demoFileState) (Some (fn_objId (fnode demoFileState)))
      = Inr \<lparr> src_version = 1, src_payload = writeWhole [1, 2, 3] 1 demoAttrs None \<rparr>
   \<and> FileNode_readBytes demoFileState (Some 3) (Some 10) = (Inr (None, Some 1), demoFileState)"
  using readBytes_past_end_gives_no_bytes[of demoFileState
      "\<lparr> src_version = 1, src_payload = writeWhole [1, 2, 3] 1 demoAttrs None \<rparr>" 3 3 "Some 10"]
  by (simp add: demoFileState_def getObj_def writeWhole_def)

text \<open>
  The claim as the specification states it (no read with \<open>start \<ge> size\<close> raises)
  fails for a negative \<open>end\<close>: on the file of three bytes, reading from 5 to -1 raises.
  Reading from 5 to 7 returns no bytes at all.
\<close>

theorem readBytes_past_end_counterexample:
  "FileNode_readBytes demoFileState (Some 5) (Some (- 1))
     = (Inl (Error ''Parameter end has bad value: -1''), demoFileState)
   \<and> FileNode_readBytes demoFileState (Some 5) (Some 7) = (Inr (None, Some 1), demoFileState)"
  by (simp add: FileNode_readBytes_def FilePersistance_readBytes_def readBytesUpToEnd_def
      demoFileState_def getObj_def writeWhole_def readonlyPayload_def numberToString_def
      digits.simps Let_def)

text \<open>
  Claim C5. When \<open>currentVersion\<close> is a number different from the node's live version,
  \<open>writeSink\<close> fails with the version-mismatch file exception (on the node's name):
  no sink is returned, so no byte can be written, no new version is handed out, and the
  node, the storage and the broadcast events are as before.
\<close>

theorem writeSink_version_mismatch:
  assumes "currentVersion = Some cv" and "cv \<noteq> fn_version (fnode s)"
  shows "FileNode_writeSink s trunc currentVersion changes now
    = (Inl (FileExc (makeVersionMismatchExc (fn_name (fnode s)))), s)
    \<and> versionMismatch (makeVersionMismatchExc (fn_name (fnode s)))"
  using assms
  by (auto simp: FileNode_writeSink_def startMakingSinkInsideChange_def makeVersionMismatchExc_def)

theorem writeSink_version_mismatch_witness:
  "FileNode_writeSink demoFileState None (Some 0) None 2000
    = (Inl (FileExc (makeVersionMismatchExc ''f.txt'')), demoFileState)
   \<and> versionMismatch (makeVersionMismatchExc ''f.txt'')"
  using writeSink_version_mismatch[of "Some 0" 0 demoFileState None None 2000]
  by (simp add: demoFileState_def)

text \<open>
  Claim C4. After \<open>writeSink\<close> has returned a sink (which leaves node, storage and
  events as they were and announces the version after the live one), whatever has been
  written into the sink, finishing it with \<open>done(err)\<close> resolves the new size to 0,
  calls the sink's original \<open>done\<close> with \<open>err\<close>, has the save rejected by the store,
  swallows that rejection, and leaves the node's version, attributes and size, the
  stored object and the broadcast events unchanged: no \<open>file-change\<close> is published.
\<close>

theorem writeSink_done_with_error_leaves_node:
  assumes "FileNode_writeSink s0 trunc currentVersion changes now = (Inr w, s)"
  shows "s = s0
    \<and> sink_done (w\<lparr>sic_sink := written\<rparr>) s (Some err)
        = ((Inr (), \<lparr> newSize_resolved = 0, originalDone_calls = [Some err, Some err] \<rparr>), s0)
    \<and> sic_version w = fn_version (fnode s0) + 1"
proof -
  have "s = s0" and "sic_version w = fn_version (fnode s0) + 1"
    using assms
    by (auto simp: FileNode_writeSink_def startMakingSinkInsideChange_def getParamsForUpdate_def
        split: sum.splits if_splits prod.splits)
  moreover have "sink_done (w\<lparr>sic_sink := written\<rparr>) s (Some err)
        = ((Inr (), \<lparr> newSize_resolved = 0, originalDone_calls = [Some err, Some err] \<rparr>), s)"
    by (simp add: sink_done_def savingObjInsideChange_def saveObj_def)
  ultimately show ?thesis by simp
qed

theorem writeSink_done_with_error_leaves_node_witness:
  "FileNode_writeSink demoFileState None (Some 1) None 2000
     = (Inr \<lparr> sic_sink = \<lparr> sink_content = [1, 2, 3] \<rparr>, sic_version = 2,
               sic_attrs = \<lparr> ctime = 1000, mtime = 2000 \<rparr>, sic_xattrs = None \<rparr>, demoFileState)
   \<and> sink_done (\<lparr> sic_sink = \<lparr> sink_content = [1, 2, 3] \<rparr>, sic_version = 2,
               sic_attrs = \<lparr> ctime = 1000, mtime = 2000 \<rparr>, sic_xattrs = None \<rparr>
                \<lparr>sic_sink := \<lparr> sink_content = [9, 9] \<rparr>\<rparr>) demoFileState (Some (Error ''disk''))
        = ((Inr (), \<lparr> newSize_resolved = 0,
                      originalDone_calls = [Some (Error ''disk''), Some (Error ''disk'')] \<rparr>),
           demoFileState)"
proof -
  have ws: "FileNode_writeSink demoFileState None (Some 1) None 2000
     = (Inr \<lparr> sic_sink = \<lparr> sink_content = [1, 2, 3] \<rparr>, sic_version = 2,
               sic_attrs = \<lparr> ctime = 1000, mtime = 2000 \<rparr>, sic_xattrs = None \<rparr>, demoFileState)"
    by (simp add: FileNode_writeSink_def startMakingSinkInsideChange_def getParamsForUpdate_def
        getXAttrsForUpdate_def demoFileState_def demoAttrs_def getObj_def getFileSink_def
        readonlyPayload_def writeWhole_def)
  show ?thesis
    using writeSink_done_with_error_leaves_node[OF ws, of "\<lparr> sink_content = [9, 9] \<rparr>" "Error ''disk''"] ws
    by simp
qed


text \<open>
  For comparison, \<open>done()\<close> without an error: the new size is the size of the sink, the
  store takes the object at the announced version, and the node commits that version
  with the new size and publishes \<open>file-change\<close>.
\<close>

lemma sink_done_without_error_commits:
  "sink_done w s None =
    ((Inr (), \<lparr> newSize_resolved = sink_getSize (sic_sink w), originalDone_calls = [None] \<rparr>),
     s\<lparr>fstorage := (fstorage s)\<lparr>st_objs := (st_objs (fstorage s))
          (Some (fn_objId (fnode s)) \<mapsto>
             \<lparr> src_version = sic_version w,
               src_payload = \<lparr> pl_attrs = sic_attrs w, pl_size = sink_getSize (sic_sink w),
                               pl_xattrs = sic_xattrs w,
                               pl_content = sink_content (sic_sink w) \<rparr> \<rparr>)\<rparr>,
       fnode := (fnode s)\<lparr>fileSize := sink_getSize (sic_sink w), fn_version := sic_version w,
                          fn_attrs := sic_attrs w, fn_xattrs := sic_xattrs w\<rparr>,
       fevents := fevents s @
          [\<lparr> ev_path = fn_name (fnode s), ev_body = FileChange (sic_version w) \<rparr>]\<rparr>)"
  by (simp add: sink_done_def savingObjInsideChange_def saveObj_def setUpdatedState_def
      setUpdatedParams_def broadcastEvent_def Let_def)

section \<open>Properties of the node tree and of path-rooted reads and writes\<close>

lemma nodeAt_append:
  "nodeAt t (ps @ qs) = (case nodeAt t ps of None \<Rightarrow> None | Some m \<Rightarrow> nodeAt m qs)"
proof (induction ps arbitrary: t)
  case Nil
  then show ?case by simp
next
  case (Cons p ps)
  show ?case
  proof (cases t)
    case (FolderN i ch)
    then show ?thesis using Cons.IH by (simp split: option.splits)
  qed simp_all
qed

lemma nodeAt_Cons_folder:
  "nodeAt t (p # ps) = Some x \<Longrightarrow> \<exists>i ch child. t = FolderN i ch \<and> map_of ch p = Some child \<and> nodeAt child ps = Some x"
  by (cases t) (auto split: option.splits)

lemma putAt_nodeAt:
  "nodeAt t ps = Some old \<Longrightarrow> nodeAt (putAt t ps new) ps = Some new"
proof (induction ps arbitrary: t)
  case Nil
  then show ?case by simp
next
  case (Cons p ps)
  from nodeAt_Cons_folder[OF Cons.prems] obtain i ch child where
    t: "t = FolderN i ch" and c: "map_of ch p = Some child" and n: "nodeAt child ps = Some old"
    by blast
  show ?case using t c Cons.IH[OF n] by (simp add: update_conv')
qed

lemma putAt_same: "nodeAt t ps = Some n \<Longrightarrow> putAt t ps n = t"
proof (induction ps arbitrary: t)
  case Nil
  then show ?case by simp
next
  case (Cons p ps)
  from nodeAt_Cons_folder[OF Cons.prems] obtain i ch child where
    t: "t = FolderN i ch" and c: "map_of ch p = Some child" and n: "nodeAt child ps = Some n"
    by blast
  show ?case using t c Cons.IH[OF n] by (simp add: update_triv)
qed

lemma getFolder_nodeAt:
  "getFolderInThisSubTree t ps c e st = (Inr f, t', st') \<Longrightarrow> nodeAt t' ps = Some f"
proof (induction t ps c e st arbitrary: f t' st' rule: getFolderInThisSubTree.induct)
  case (1 folder create exclusive st)
  then show ?case by auto
next
  case (2 i ch p ps create exclusive st)
  show ?case
  proof (cases "map_of ch p")
    case None
    with "2.prems" have cr: create by (simp split: if_splits)
    obtain newId st1 where g: "generateNewObjId st = (newId, st1)" by (cases "generateNewObjId st")
    obtain r child' st2 where rec: "getFolderInThisSubTree (FolderN (Some newId) []) ps create exclusive st1 = (r, child', st2)"
      by (cases "getFolderInThisSubTree (FolderN (Some newId) []) ps create exclusive st1")
    from "2.prems" None cr g rec have r: "r = Inr f" and t': "t' = FolderN i (AList.update p child' ch)"
      by simp_all
    have "nodeAt child' ps = Some f"
      using "2.IH"(1)[OF None cr g[symmetric]] rec r by simp
    then show ?thesis using t' by (simp add: update_conv')
  next
    case (Some child)
    with "2.prems" have ne: "\<not> (ps = [] \<and> create \<and> exclusive)" by (auto split: if_splits)
    from "2.prems" Some ne obtain ci cch where ch: "child = FolderN ci cch"
      by (cases child) auto
    obtain r child' st2 where rec: "getFolderInThisSubTree (FolderN ci cch) ps create exclusive st = (r, child', st2)"
      by (cases "getFolderInThisSubTree (FolderN ci cch) ps create exclusive st")
    from "2.prems" Some ne ch rec have r: "r = Inr f" and t': "t' = FolderN i (AList.update p child' ch)"
      by simp_all
    have "nodeAt child' ps = Some f"
      using "2.IH"(2)[OF Some ne ch] rec r by simp
    then show ?thesis using t' by (simp add: update_conv')
  qed
qed simp_all

lemma getFolder_existing:
  "nodeAt t (ps @ [n]) = Some x \<Longrightarrow>
   \<exists>i ch. getFolderInThisSubTree t ps False False st = (Inr (FolderN i ch), t, st) \<and> map_of ch n = Some x"
proof (induction ps arbitrary: t)
  case Nil
  then show ?case using nodeAt_Cons_folder[of t n "[]" x] by auto
next
  case (Cons p ps)
  from nodeAt_Cons_folder[of t p "ps @ [n]" x] Cons.prems obtain i ch child where
    t: "t = FolderN i ch" and c: "map_of ch p = Some child" and n: "nodeAt child (ps @ [n]) = Some x"
    by auto
  from Cons.IH[OF n] obtain j cch where
    g: "getFolderInThisSubTree child ps False False st = (Inr (FolderN j cch), child, st)"
    and m: "map_of cch n = Some x" by blast
  have "\<exists>ci ch2. child = FolderN ci ch2"
  proof (cases ps)
    case Nil
    then show ?thesis using g by simp
  next
    case (Cons q qs)
    then show ?thesis using n nodeAt_Cons_folder[of child q "qs @ [n]" x] by auto
  qed
  then obtain ci ch2 where child: "child = FolderN ci ch2" by blast
  show ?case using t c g m child by (simp add: update_triv)
qed


lemma getFolder_storage:
  "getFolderInThisSubTree t ps c e st = (r, t', st') \<Longrightarrow>
   st_type st' = st_type st \<and> st_objs st' = st_objs st \<and> st_closed st' = st_closed st"
proof (induction t ps c e st arbitrary: r t' st' rule: getFolderInThisSubTree.induct)
  case (1 folder create exclusive st)
  then show ?case by auto
next
  case (2 i ch p ps create exclusive st)
  show ?case
  proof (cases "map_of ch p")
    case None
    show ?thesis
    proof (cases create)
      case False
      then show ?thesis using "2.prems" None by auto
    next
      case True
      obtain newId st1 where g: "generateNewObjId st = (newId, st1)" by (cases "generateNewObjId st")
      obtain r2 child' st2 where rec: "getFolderInThisSubTree (FolderN (Some newId) []) ps create exclusive st1 = (r2, child', st2)"
        by (cases "getFolderInThisSubTree (FolderN (Some newId) []) ps create exclusive st1")
      from "2.prems" None True g rec have "st' = st2" by simp
      moreover have "st_type st1 = st_type st \<and> st_objs st1 = st_objs st \<and> st_closed st1 = st_closed st"
        using g by (auto simp: generateNewObjId_def)
      ultimately show ?thesis using "2.IH"(1)[OF None True g[symmetric] rec] by simp
    qed
  next
    case (Some child)
    show ?thesis
    proof (cases "ps = [] \<and> create \<and> exclusive")
      case True
      then show ?thesis using "2.prems" Some by auto
    next
      case False
      show ?thesis
      proof (cases child)
        case (FolderN ci cch)
        obtain r2 child' st2 where rec: "getFolderInThisSubTree (FolderN ci cch) ps create exclusive st = (r2, child', st2)"
          by (cases "getFolderInThisSubTree (FolderN ci cch) ps create exclusive st")
        from "2.prems" Some False FolderN rec have "st' = st2" by simp
        then show ?thesis using "2.IH"(2)[OF Some False FolderN rec] by simp
      next
        case (FileN f)
        then show ?thesis using "2.prems" Some False by auto
      next
        case (LinkN l)
        then show ?thesis using "2.prems" Some False by auto
      qed
    qed
  qed
qed auto

lemma getFolder_empty:
  "getFolderInThisSubTree (FolderN i []) ps c e st = (Inr f, t', st') \<Longrightarrow> \<exists>j. f = FolderN j []"
proof (induction ps arbitrary: i st t' st')
  case Nil
  then show ?case by auto
next
  case (Cons p ps)
  from Cons.prems have cr: c by (simp split: if_splits)
  obtain newId st1 where g: "generateNewObjId st = (newId, st1)" by (cases "generateNewObjId st")
  obtain r child' st2 where rec: "getFolderInThisSubTree (FolderN (Some newId) []) ps c e st1 = (r, child', st2)"
    by (cases "getFolderInThisSubTree (FolderN (Some newId) []) ps c e st1")
  from Cons.prems cr g rec have "r = Inr f" by simp
  then show ?case using Cons.IH rec by blast
qed

lemma getFile_Some:
  "FolderNode_getFile folder name b = Inr (Some file) \<Longrightarrow>
   \<exists>i ch n. folder = FolderN i ch \<and> name = Some n \<and> map_of ch n = Some (FileN file)"
  by (cases folder; cases name)
     (auto simp: FolderNode_getFile_def split: option.splits Node.splits if_splits)

lemma createFile_ok:
  "FolderNode_createFile folder name ex sto now = (Inr (file, folder'), sto2) \<Longrightarrow>
   \<exists>i ch n. folder = FolderN i ch \<and> name = Some n \<and> fn_name file = n \<and> fn_version file = 0
     \<and> folder' = FolderN i (AList.update n (FileN file) ch)
     \<and> st_type sto2 = st_type sto \<and> st_objs sto2 = st_objs sto \<and> st_closed sto2 = st_closed sto"
  by (cases folder; cases name)
     (auto simp: FolderNode_createFile_def FileNode_makeForNew_def generateNewObjId_def
           split: option.splits if_splits prod.splits sum.splits)


lemma same_result: "x = (a, b) \<Longrightarrow> x = (c, d) \<Longrightarrow> c = a \<and> d = b"
  by simp

lemma getOrCreateFile_post:
  assumes "V_getOrCreateFile st path flags now = (Inr ref, st1)"
  shows "\<exists>root1 folderPath n f.
           split path = (folderPath, Some n) \<and> ref = folderPath @ [n]
         \<and> v_rootNode st1 = Some root1 \<and> nodeAt root1 ref = Some (FileN f)
         \<and> st_type (the_storage st1) = st_type (the_storage st)
         \<and> (v_rootNode st = Some (FolderN None []) \<longrightarrow> fn_version f = 0)"
proof -
  obtain folderPath fileName where sp: "split path = (folderPath, fileName)"
    by (cases "split path")
  let ?create = "truthyFlag (ff_create flags)"
  let ?excl = "truthyFlag (ff_exclusive flags)"
  obtain root where root: "v_rootNode st = Some root"
    using assms sp by (cases "v_rootNode st") (auto simp: V_getOrCreateFile_def getRootIfNotClosed_def Let_def)
  obtain r root1 sto1 where gf:
    "getFolderInThisSubTree root folderPath ?create False (the_storage st) = (r, root1, sto1)"
    by (cases "getFolderInThisSubTree root folderPath ?create False (the_storage st)")
  obtain folder where r: "r = Inr folder"
    using assms sp root gf by (cases r) (auto simp: V_getOrCreateFile_def getRootIfNotClosed_def Let_def)
  note at = getFolder_nodeAt[OF gf[unfolded r]]
  note sto = getFolder_storage[OF gf]
  let ?st1 = "st\<lparr>v_rootNode := Some root1, the_storage := sto1\<rparr>"
  have body: "(case FolderNode_getFile folder fileName ?create of
        Inl e \<Rightarrow> (Inl (setExcPath path e), ?st1)
      | Inr (Some file) \<Rightarrow>
          (if ?excl
           then (Inl (FileExc (makeFileException (excCode ''alreadyExists'') path None)), ?st1)
           else (Inr (fileRef folderPath fileName), ?st1))
      | Inr None \<Rightarrow>
          (case FolderNode_createFile folder fileName ?excl sto1 now of
             (Inl e, sto2) \<Rightarrow> (Inl e, ?st1\<lparr>the_storage := sto2\<rparr>)
           | (Inr (file, folder'), sto2) \<Rightarrow>
               (Inr (fileRef folderPath fileName),
                ?st1\<lparr>v_rootNode := Some (putAt root1 folderPath folder'),
                    the_storage := sto2\<rparr>))) = (Inr ref, st1)"
    using assms sp root gf r by (simp add: V_getOrCreateFile_def getRootIfNotClosed_def Let_def)
  show ?thesis
  proof (cases "FolderNode_getFile folder fileName ?create")
    case (Inl e)
    then show ?thesis using body by simp
  next
    case (Inr fo)
    show ?thesis
    proof (cases fo)
      case (Some fl)
      from getFile_Some[OF Inr[unfolded Some]] obtain i ch n where
        f: "folder = FolderN i ch" "fileName = Some n" "map_of ch n = Some (FileN fl)" by blast
      from body Inr Some have ne: "\<not> ?excl" and ref: "ref = fileRef folderPath fileName" and st1: "st1 = ?st1"
        by (auto split: if_splits)
      have "nodeAt root1 (folderPath @ [n]) = Some (FileN fl)"
        using at f by (simp add: nodeAt_append)
      moreover have "v_rootNode st = Some (FolderN None []) \<longrightarrow> fn_version fl = 0"
      proof
        assume "v_rootNode st = Some (FolderN None [])"
        then have "root = FolderN None []" using root by simp
        then obtain j where "folder = FolderN j []" using getFolder_empty gf r by blast
        then show "fn_version fl = 0" using f by simp
      qed
      ultimately show ?thesis using sp f ref st1 sto by (auto simp: fileRef_def)
    next
      case None
      obtain rc sto2 where cf: "FolderNode_createFile folder fileName ?excl sto1 now = (rc, sto2)"
        by (cases "FolderNode_createFile folder fileName ?excl sto1 now")
      from body Inr None cf obtain fl folder' where rc: "rc = Inr (fl, folder')"
        by (cases rc) auto
      from createFile_ok[OF cf[unfolded rc]] obtain i ch n where
        f: "folder = FolderN i ch" "fileName = Some n" "fn_name fl = n" "fn_version fl = 0"
           "folder' = FolderN i (AList.update n (FileN fl) ch)"
           "st_type sto2 = st_type sto1" by blast
      from body Inr None cf rc have ref: "ref = fileRef folderPath fileName"
        and st1: "st1 = ?st1\<lparr>v_rootNode := Some (putAt root1 folderPath folder'), the_storage := sto2\<rparr>"
        by auto
      have "nodeAt (putAt root1 folderPath folder') folderPath = Some folder'"
        using putAt_nodeAt[OF at] .
      then have "nodeAt (putAt root1 folderPath folder') (folderPath @ [n]) = Some (FileN fl)"
        using f by (simp add: nodeAt_append update_conv')
      then show ?thesis using sp f ref st1 sto by (auto simp: fileRef_def)
    qed
  qed
qed

lemma onFile_save:
  assumes "v_rootNode st1 = Some root1" and "nodeAt root1 ref = Some (FileN f)"
  shows "onFile st1 ref (\<lambda>s. FileNode_save s content None now) =
    (Inr (fn_version f + 1),
     st1\<lparr>v_rootNode := Some (putAt root1 ref (FileN (savedFile f content now))),
         the_storage := (the_storage st1)\<lparr>st_objs := (st_objs (the_storage st1))
            (Some (fn_objId f) \<mapsto> savedObject f content now)\<rparr>,
         broadcasts := broadcasts st1 @
            [\<lparr> ev_path = fn_name f, ev_body = FileChange (fn_version f + 1) \<rparr>]\<rparr>)"
  using assms
  by (simp add: onFile_def FileNode_save_def getParamsForUpdate_def getXAttrsForUpdate_def
      savingObjInsideChange_def saveObj_def setUpdatedState_def setUpdatedParams_def
      broadcastEvent_def savedFile_def savedObject_def Let_def)

lemma FilePersistance_readBytes_whole:
  "FilePersistance_readBytes \<lparr> src_version = v, src_payload = writeWhole content v' attrs xattrs \<rparr>
      None None False = Inr (if content = [] then None else Some content, None)"
  by (simp add: FilePersistance_readBytes_def readBytesUpToEnd_def readonlyPayload_def
      writeWhole_def readSomeContentBytes_def Let_def)

lemma V_readBytes_of_file:
  assumes sp: "split path = (folderPath, Some n)"
    and root: "v_rootNode st = Some root"
    and at: "nodeAt root (folderPath @ [n]) = Some (FileN f)"
    and obj: "st_objs (the_storage st) (Some (fn_objId f)) = Some objSrc"
    and ver: "src_version objSrc = fn_version f"
    and ty: "st_type (the_storage st) \<noteq> Share"
    and rb: "FilePersistance_readBytes objSrc None None False = Inr (content, None)"
  shows "V_readBytes st path None None now = (Inr (content, Some (fn_version f)), st)"
proof -
  from getFolder_existing[OF at, of "the_storage st"] obtain i ch where
    gf: "getFolderInThisSubTree root folderPath False False (the_storage st)
          = (Inr (FolderN i ch), root, the_storage st)"
    and m: "map_of ch n = Some (FileN f)" by blast
  have same: "st\<lparr>v_rootNode := Some root, the_storage := the_storage st\<rparr> = st"
    using root by simp
  have gc: "V_getOrCreateFile st path noFlags now = (Inr (folderPath @ [n]), st)"
    using sp root gf m same
    by (simp add: V_getOrCreateFile_def getRootIfNotClosed_def noFlags_def truthyFlag_def
        FolderNode_getFile_def fileRef_def Let_def)
  have ty': "st_type (the_storage st) = Synced \<or> st_type (the_storage st) = Local"
    using ty by (cases "st_type (the_storage st)") simp_all
  have rd: "FileNode_readBytes \<lparr> fnode = f, fstorage = the_storage st, fevents = broadcasts st \<rparr> None None
      = (Inr (content, Some (fn_version f)), \<lparr> fnode = f, fstorage = the_storage st, fevents = broadcasts st \<rparr>)"
    using obj ver ty' rb by (simp add: FileNode_readBytes_def getObj_def Let_def)
  have unchanged: "st\<lparr>v_rootNode := Some (putAt root (folderPath @ [n]) (FileN f)),
               the_storage := the_storage st, broadcasts := broadcasts st\<rparr> = st"
    using root putAt_same[OF at] by simp
  show ?thesis
    using gc root at rd unchanged by (simp add: V_readBytes_def onFile_def)
qed

text \<open>
  Claim C1, as the code has it. After a successful \<open>writeBytes(P, B)\<close>, whatever the
  flags and the state before, on a storage that is local or synced, \<open>readBytes(P)\<close>
  returns the version that the write returned, with exactly the bytes \<open>B\<close> when
  \<open>B\<close> is not empty and with no bytes (\<open>undefined\<close>) when it is empty, and changes
  nothing. On a new file system, whose root is the empty folder, that version is 1.
\<close>

theorem writeBytes_readBytes_roundtrip:
  assumes w: "V_writeBytes st path content flags now = (Inr v, st')"
    and ty: "st_type (the_storage st) \<noteq> Share"
  shows "V_readBytes st' path None None now'
           = (Inr (if content = [] then None else Some content, Some v), st')
       \<and> (v_rootNode st = Some (FolderN None []) \<longrightarrow> v = 1)"
proof -
  obtain r st1 where gc: "V_getOrCreateFile st path flags now = (r, st1)"
    by (cases "V_getOrCreateFile st path flags now")
  obtain ref where r: "r = Inr ref" using w gc by (cases r) (auto simp: V_writeBytes_def)
  from getOrCreateFile_post[OF gc[unfolded r]] obtain root1 folderPath n f where
    sp: "split path = (folderPath, Some n)" and ref: "ref = folderPath @ [n]"
    and root1: "v_rootNode st1 = Some root1" and at: "nodeAt root1 ref = Some (FileN f)"
    and ty1: "st_type (the_storage st1) = st_type (the_storage st)"
    and fresh: "v_rootNode st = Some (FolderN None []) \<longrightarrow> fn_version f = 0"
    by blast
  let ?f' = "savedFile f content now"
  have sv: "onFile st1 ref (\<lambda>s. FileNode_save s content None now) = (Inr v, st')"
    using w gc r by (simp add: V_writeBytes_def)
  note os = onFile_save[OF root1 at, of content now]
  note res = same_result[OF os sv]
  have v: "v = fn_version f + 1" using res by simp
  have st': "st' = st1\<lparr>v_rootNode := Some (putAt root1 ref (FileN ?f')),
         the_storage := (the_storage st1)\<lparr>st_objs := (st_objs (the_storage st1))
            (Some (fn_objId f) \<mapsto> savedObject f content now)\<rparr>,
         broadcasts := broadcasts st1 @
            [\<lparr> ev_path = fn_name f, ev_body = FileChange (fn_version f + 1) \<rparr>]\<rparr>"
    using res by (rule conjunct2)
  have root': "v_rootNode st' = Some (putAt root1 ref (FileN ?f'))" using st' by simp
  have at': "nodeAt (putAt root1 ref (FileN ?f')) (folderPath @ [n]) = Some (FileN ?f')"
    using putAt_nodeAt[OF at] ref by simp
  have obj: "st_objs (the_storage st') (Some (fn_objId ?f')) = Some (savedObject f content now)"
    using st' by (simp add: savedFile_def)
  have ver: "src_version (savedObject f content now) = fn_version ?f'"
    by (simp add: savedObject_def savedFile_def)
  have ty': "st_type (the_storage st') \<noteq> Share" using st' ty ty1 by simp
  have rb: "FilePersistance_readBytes (savedObject f content now) None None False
      = Inr (if content = [] then None else Some content, None)"
    unfolding savedObject_def by (rule FilePersistance_readBytes_whole)
  have "V_readBytes st' path None None now'
      = (Inr (if content = [] then None else Some content, Some (fn_version ?f')), st')"
    by (rule V_readBytes_of_file[OF sp root' at' obj ver ty' rb])
  moreover have "fn_version ?f' = v" using v by (simp add: savedFile_def)
  ultimately show ?thesis using fresh v by simp
qed

lemmas eval_defs = V_writeBytes_def V_readBytes_def V_getOrCreateFile_def onFile_def
  getRootIfNotClosed_def split_def splitPathIntoParts_def posix_resolve_root_def
  WRITE_NONEXCL_FLAGS_def noFlags_def truthyFlag_def truthyStr_def fileRef_def
  FolderNode_getFile_def FolderNode_createFile_def FileNode_makeForNew_def
  generateNewObjId_def digits.simps demoFS_def makeNewRoot_def newStorage_def
  FileNode_save_def getParamsForUpdate_def getXAttrsForUpdate_def
  savingObjInsideChange_def saveObj_def setUpdatedState_def setUpdatedParams_def
  broadcastEvent_def writeWhole_def Let_def
  FileNode_readBytes_def FilePersistance_readBytes_def readBytesUpToEnd_def getObj_def
  readonlyPayload_def readSomeContentBytes_def

theorem writeBytes_readBytes_roundtrip_witness:
  "fst (V_writeBytes (demoFS Local) ''/a/b.txt'' [1, 2, 3] WRITE_NONEXCL_FLAGS 5) = Inr 1
   \<and> st_type (the_storage (demoFS Local)) \<noteq> Share
   \<and> V_readBytes (snd (V_writeBytes (demoFS Local) ''/a/b.txt'' [1, 2, 3] WRITE_NONEXCL_FLAGS 5))
         ''/a/b.txt'' None None 6
       = (Inr (Some [1, 2, 3], Some 1),
          snd (V_writeBytes (demoFS Local) ''/a/b.txt'' [1, 2, 3] WRITE_NONEXCL_FLAGS 5))"
proof -
  have v: "fst (V_writeBytes (demoFS Local) ''/a/b.txt'' [1, 2, 3] WRITE_NONEXCL_FLAGS 5) = Inr 1"
    by (simp add: eval_defs)
  have w: "V_writeBytes (demoFS Local) ''/a/b.txt'' [1, 2, 3] WRITE_NONEXCL_FLAGS 5
      = (Inr 1, snd (V_writeBytes (demoFS Local) ''/a/b.txt'' [1, 2, 3] WRITE_NONEXCL_FLAGS 5))"
    using v by (simp add: prod_eq_iff)
  have ty: "st_type (the_storage (demoFS Local)) \<noteq> Share"
    by (simp add: demoFS_def makeNewRoot_def newStorage_def)
  show ?thesis
    using writeBytes_readBytes_roundtrip[OF w ty, of 6] v ty by simp
qed

text \<open>
  The claim as the specification states it fails for the empty buffer: on a new local
  file system, after writing no bytes to \<open>/a/b.txt\<close>, the read returns \<open>undefined\<close>
  for the bytes, not an empty array. And on a storage that is neither local nor synced
  the read returns \<open>undefined\<close> for the version.
\<close>

theorem writeBytes_readBytes_counterexample:
  "fst (V_writeBytes (demoFS Local) ''/a/b.txt'' [] WRITE_NONEXCL_FLAGS 5) = Inr 1
   \<and> fst (V_readBytes (snd (V_writeBytes (demoFS Local) ''/a/b.txt'' [] WRITE_NONEXCL_FLAGS 5))
            ''/a/b.txt'' None None 6) = Inr (None, Some 1)
   \<and> fst (V_writeBytes (demoFS Share) ''/a/b.txt'' [7] WRITE_NONEXCL_FLAGS 5) = Inr 1
   \<and> fst (V_readBytes (snd (V_writeBytes (demoFS Share) ''/a/b.txt'' [7] WRITE_NONEXCL_FLAGS 5))
            ''/a/b.txt'' None None 6) = Inr (Some [7], None)"
  by (simp add: eval_defs)

subsection \<open>The closed file system\<close>




lemma storageClosedExc_fields:
  "storageClosedExc path = FileExc e \<Longrightarrow>
   runtimeException e \<and> exc_type e = ''file'' \<and> exc_path e = path"
  by (auto simp: storageClosedExc_def makeFileException_def bareFileException_def excCode_def Code_def)

text \<open>
  The table \<open>Code\<close> has no entry \<open>storageClosed\<close>, although \<open>getRootIfNotClosed\<close> and
  \<open>storage()\<close> read \<open>excCode.storageClosed\<close>: the exception they throw has the code
  \<open>undefined\<close>, and the constructor sets no flag in it. Nothing in it tells that the
  storage is closed.
\<close>

lemma storageClosed_not_in_Code:
  "excCode ''storageClosed'' = None
   \<and> makeFileException (excCode ''storageClosed'') path None = bareFileException None path None
   \<and> getRootIfNotClosed (XspFS_close st) path = Inl (FileExc (bareFileException None path None))
   \<and> XspFS_storage (XspFS_close st) = Inl (FileExc (bareFileException None (fs_name st) None))"
  by (simp add: excCode_def Code_def makeFileException_def getRootIfNotClosed_def
      XspFS_storage_def XspFS_close_def V_close_def)


























































section \<open>Properties of the map from object ids to paths\<close>

lemma pathOf_Cons: "pathOf p (n # ns) = pathOf (p @ ''/'' @ n) ns"
  by (simp add: pathOf_def)

lemma recursiveIdAndPathList_folder:
  "recursiveIdAndPathList (FolderN objId ch) path = (objId, path) # concat (map (listOfChild path) ch)"
proof -
  have "(\<lambda>(name, child). case child of
            FolderN ci cch \<Rightarrow> recursiveIdAndPathList child (path @ ''/'' @ name)
          | _ \<Rightarrow> []) = listOfChild path"
    by (rule ext) (simp add: listOfChild_def)
  then show ?thesis by (simp add: recursiveIdAndPathList.simps)
qed

lemma listOfChild_folder:
  "listOfChild p (n, FolderN ci cch) = recursiveIdAndPathList (FolderN ci cch) (p @ ''/'' @ n)"
  unfolding listOfChild_def by simp

lemma in_listOfChild:
  assumes "(n, child) \<in> set ch" and "x \<in> set (listOfChild p (n, child))"
  shows "x \<in> set (recursiveIdAndPathList (FolderN i ch) p)"
proof -
  have "x \<in> set (concat (map (listOfChild p) ch))"
    unfolding set_concat using assms by simp blast
  then show ?thesis unfolding recursiveIdAndPathList_folder by simp
qed

lemma nodeAt_folder_child:
  assumes "nodeAt child ns = Some (FolderN objId ch')" and "map_of ch n = Some child"
  shows "\<exists>ci cch. child = FolderN ci cch"
proof (cases ns)
  case Nil
  then show ?thesis using assms(1) by simp
next
  case (Cons q qs)
  then show ?thesis using assms(1) nodeAt_Cons_folder[of child q qs] by blast
qed

lemma folder_in_list:
  "nodeAt t names = Some (FolderN objId ch') \<Longrightarrow>
   (objId, pathOf p names) \<in> set (recursiveIdAndPathList t p)"
proof (induction names arbitrary: t p)
  case Nil
  then show ?case by (simp add: pathOf_def recursiveIdAndPathList_folder)
next
  case (Cons n ns)
  from nodeAt_Cons_folder[OF Cons.prems] obtain i ch child where
    t: "t = FolderN i ch" and c: "map_of ch n = Some child"
    and at: "nodeAt child ns = Some (FolderN objId ch')" by blast
  from nodeAt_folder_child[OF at c] obtain ci cch where child: "child = FolderN ci cch" by blast
  have mem: "(n, child) \<in> set ch" using c by (rule map_of_SomeD)
  have "(objId, pathOf (p @ ''/'' @ n) ns) \<in> set (recursiveIdAndPathList child (p @ ''/'' @ n))"
    using Cons.IH[OF at] .
  then have "(objId, pathOf p (n # ns)) \<in> set (listOfChild p (n, child))"
    unfolding child listOfChild_folder pathOf_Cons .
  from in_listOfChild[OF mem this] show ?case unfolding t .
qed

lemma list_in_folder:
  "uniqueNames t \<Longrightarrow> (objId, path) \<in> set (recursiveIdAndPathList t p) \<Longrightarrow>
   \<exists>names ch'. nodeAt t names = Some (FolderN objId ch') \<and> path = pathOf p names"
proof (induction t p arbitrary: objId path rule: recursiveIdAndPathList.induct)
  case (1 i ch p)
  show ?case
  proof (cases "(objId, path) = (i, p)")
    case True
    then have "nodeAt (FolderN i ch) [] = Some (FolderN objId ch) \<and> path = pathOf p []"
      by (simp add: pathOf_def)
    then show ?thesis by blast
  next
    case False
    have "(objId, path) \<in> set (concat (map (listOfChild p) ch))"
      using "1.prems"(2) False unfolding recursiveIdAndPathList_folder by auto
    then obtain entry where e: "entry \<in> set ch" and ine: "(objId, path) \<in> set (listOfChild p entry)"
      by auto
    obtain name child where entry: "entry = (name, child)" by (cases entry)
    have mem: "(name, child) \<in> set ch" using e entry by simp
    have inl: "(objId, path) \<in> set (case child of FolderN ci cch \<Rightarrow> recursiveIdAndPathList child (p @ ''/'' @ name) | _ \<Rightarrow> [])"
      using ine entry by (simp add: listOfChild_def)
    from inl obtain ci cch where child: "child = FolderN ci cch"
      by (cases child) simp_all
    have inl': "(objId, path) \<in> set (recursiveIdAndPathList child (p @ ''/'' @ name))"
      using inl unfolding child by simp
    have u: "uniqueNames child" and d: "distinct (map fst ch)"
      using "1.prems"(1) mem by (auto simp: list_all_iff)
    from "1.IH"[OF mem refl child u inl'] obtain names ch' where
      at: "nodeAt child names = Some (FolderN objId ch')" and p: "path = pathOf (p @ ''/'' @ name) names"
      by blast
    have "map_of ch name = Some child" using d mem by simp
    then have "nodeAt (FolderN i ch) (name # names) = Some (FolderN objId ch') \<and> path = pathOf p (name # names)"
      using at p by (simp add: pathOf_Cons)
    then show ?thesis by blast
  qed
qed (simp_all add: recursiveIdAndPathList.simps)

lemma fold_set_get:
  "Map_get (fold (\<lambda>(objId, path). AList.update (Some objId) (Some path)) xs m) (Some k)
     = (case map_of (rev xs) k of Some p \<Rightarrow> Some p | None \<Rightarrow> Map_get m (Some k))"
proof (induction xs arbitrary: m)
  case Nil
  then show ?case by simp
next
  case (Cons x xs)
  obtain i p where x: "x = (i, p)" by (cases x)
  show ?case
    using Cons.IH[of "AList.update (Some i) (Some p) m"] x
    by (auto simp: Map_get_def update_conv' map_add_def split: option.splits)
qed

lemma map_of_rev_distinct:
  "distinct (map fst xs) \<Longrightarrow> map_of (rev xs) = map_of xs"
  by (rule map_of_inject_set[THEN iffD2]) (simp_all add: distinct_rev rev_map[symmetric])


text \<open>
  Claim C9, as the code has it. For a tree with unique names in every folder and no
  folder id listed twice, the initial map sends the root's id to \<open>.\<close>, and it sends
  an id to a path exactly when a folder with that id is reached from the root through
  folders by some names and the path is \<open>.\<close> followed by these names. So every
  folder of the watched subtree has its entry, and a file or a link contributes none.
\<close>

theorem fillFromTree_lists_folders:
  assumes "uniqueNames (FolderN rootId ch)"
    and "distinct (map fst (recursiveIdAndPathList (FolderN rootId ch) ''.''))"
  shows "Map_get (otp_map (fillFromTree emptyObjIdToPathMap (FolderN rootId ch))) (Some rootId)
           = Some ''.''
       \<and> (\<forall>objId path.
            (Map_get (otp_map (fillFromTree emptyObjIdToPathMap (FolderN rootId ch))) (Some objId)
               = Some path)
            = (\<exists>names ch'. nodeAt (FolderN rootId ch) names = Some (FolderN objId ch')
                 \<and> path = pathOf ''.'' names))"
proof -
  let ?t = "FolderN rootId ch"
  let ?xs = "recursiveIdAndPathList ?t ''.''"
  have get: "Map_get (otp_map (fillFromTree emptyObjIdToPathMap ?t)) (Some k) = map_of ?xs k" for k
    using fold_set_get[of ?xs "[]" k] map_of_rev_distinct[OF assms(2)]
    by (simp add: fillFromTree_def emptyObjIdToPathMap_def Map_get_def split: option.splits)
  have mem: "(map_of ?xs k = Some p) = ((k, p) \<in> set ?xs)" for k p
    using assms(2) by simp
  have char: "((k, p) \<in> set ?xs)
       = (\<exists>names ch'. nodeAt ?t names = Some (FolderN k ch') \<and> p = pathOf ''.'' names)" for k p
    using list_in_folder[OF assms(1), of k p "''.''"] folder_in_list[of ?t _ k _ "''.''"] by blast
  have "(rootId, ''.'') \<in> set ?xs" by (simp add: recursiveIdAndPathList_folder)
  then have "Map_get (otp_map (fillFromTree emptyObjIdToPathMap ?t)) (Some rootId) = Some ''.''"
    using get mem by simp
  then show ?thesis using get mem char by simp
qed

lemmas map_eval = fillFromTree_def emptyObjIdToPathMap_def Map_get_def demoTree_def demoFile_def
  recursiveIdAndPathList.simps getPathCorrectingTreeMap_def truthyStr_def truthyId_def Let_def

theorem fillFromTree_lists_folders_witness:
  "uniqueNames demoTree
   \<and> distinct (map fst (recursiveIdAndPathList demoTree ''.''))
   \<and> Map_get (otp_map (fillFromTree emptyObjIdToPathMap demoTree)) (Some None) = Some ''.''
   \<and> nodeAt demoTree [''x'', ''d''] = Some (FolderN (Some ''id-d'') [])
   \<and> Map_get (otp_map (fillFromTree emptyObjIdToPathMap demoTree)) (Some (Some ''id-d''))
        = Some ''./x/d''"
proof -
  have u: "uniqueNames (FolderN None
      [(''x'', FolderN (Some ''id-x'') [(''f'', FileN demoFile), (''d'', FolderN (Some ''id-d'') [])]),
       (''y'', FolderN (Some ''id-y'') []),
       (''l'', LinkN ''id-l'')])"
    by simp
  have d: "distinct (map fst (recursiveIdAndPathList (FolderN None
      [(''x'', FolderN (Some ''id-x'') [(''f'', FileN demoFile), (''d'', FolderN (Some ''id-d'') [])]),
       (''y'', FolderN (Some ''id-y'') []),
       (''l'', LinkN ''id-l'')]) ''.''))"
    by (simp add: recursiveIdAndPathList.simps)
  show ?thesis
    using fillFromTree_lists_folders[OF u d] u d
    by (simp add: map_eval)
qed

text \<open>
  The claim as the specification states it (file and link children contribute their
  entries) fails on the tree of the examples: the map holds the four folders only, and
  neither the file \<open>x/f\<close> nor the link \<open>l\<close> has an entry.
\<close>

theorem fillFromTree_files_counterexample:
  "nodeAt demoTree [''x'', ''f''] = Some (FileN demoFile)
   \<and> nodeAt demoTree [''l''] = Some (LinkN ''id-l'')
   \<and> otp_map (fillFromTree emptyObjIdToPathMap demoTree)
       = [(Some None, Some ''.''), (Some (Some ''id-x''), Some ''./x''),
          (Some (Some ''id-d''), Some ''./x/d''), (Some (Some ''id-y''), Some ''./y'')]
   \<and> Map_get (otp_map (fillFromTree emptyObjIdToPathMap demoTree)) (Some (Some (fn_objId demoFile)))
       = None
   \<and> Map_get (otp_map (fillFromTree emptyObjIdToPathMap demoTree)) (Some (Some ''id-l'')) = None"
  by (simp add: map_eval)


lemma delete_update_absent:
  "map_of al k = None \<Longrightarrow> AList.delete k (AList.update k v al) = al"
proof (induction al)
  case Nil
  then show ?case by simp
next
  case (Cons entry al)
  obtain k' v' where e: "entry = (k', v')" by (cases entry)
  show ?case using Cons e by (auto split: if_splits)
qed

lemma removal_first:
  assumes src: "Map_get (otp_map m) (Some srcId) = Some srcPath" "srcPath \<noteq> []"
    and child: "findObjIdByPath (otp_map m) (srcPath @ ''/'' @ name) = Some (Some cid)" "cid \<noteq> []"
    and label: "label \<noteq> 0" "map_of (otp_moves m) label = None"
  shows "getPathCorrectingTreeMap m (removalOf srcId ps pe name label)
    = (Some srcPath, m\<lparr>otp_moves := AList.update label
          \<lparr> mi_newPath = None, mi_objId = Some (Some cid) \<rparr> (otp_moves m)\<rparr>)"
  using assms
  by (simp add: getPathCorrectingTreeMap_def removalOf_def truthyStr_def truthyId_def Let_def)

lemma addition_second:
  assumes dst: "Map_get (otp_map m) (Some dstId) = Some dstPath" "dstPath \<noteq> []"
    and label: "label \<noteq> 0" "map_of (otp_moves m) label = Some \<lparr> mi_newPath = None, mi_objId = Some (Some cid) \<rparr>"
  shows "getPathCorrectingTreeMap m (additionOf dstId pd pe newName label)
    = (Some dstPath, m\<lparr>otp_map := AList.update (Some (Some cid)) (Some (dstPath @ ''/'' @ newName)) (otp_map m),
                        otp_moves := AList.delete label (otp_moves m)\<rparr>)"
  using assms
  by (simp add: getPathCorrectingTreeMap_def additionOf_def truthyStr_def truthyId_def Let_def)

lemma addition_first:
  assumes dst: "Map_get (otp_map m) (Some dstId) = Some dstPath" "dstPath \<noteq> []"
    and label: "label \<noteq> 0" "map_of (otp_moves m) label = None"
  shows "getPathCorrectingTreeMap m (additionOf dstId pd pe newName label)
    = (Some dstPath, m\<lparr>otp_moves := AList.update label
          \<lparr> mi_newPath = Some (dstPath @ ''/'' @ newName), mi_objId = None \<rparr> (otp_moves m)\<rparr>)"
  using assms
  by (simp add: getPathCorrectingTreeMap_def additionOf_def truthyStr_def truthyId_def Let_def)

lemma removal_second:
  assumes src: "Map_get (otp_map m) (Some srcId) = Some srcPath" "srcPath \<noteq> []"
    and child: "findObjIdByPath (otp_map m) (srcPath @ ''/'' @ name) = Some (Some cid)" "cid \<noteq> []"
    and label: "label \<noteq> 0" "map_of (otp_moves m) label = Some \<lparr> mi_newPath = Some np, mi_objId = None \<rparr>"
  shows "getPathCorrectingTreeMap m (removalOf srcId ps pe name label)
    = (Some srcPath, m\<lparr>otp_map := AList.update (Some (Some cid)) (Some np) (otp_map m),
                        otp_moves := AList.delete label (otp_moves m)\<rparr>)"
  using assms
  by (simp add: getPathCorrectingTreeMap_def removalOf_def truthyStr_def truthyId_def Let_def)

text \<open>
  Claim C3, as the code has it. Let the map know the source folder and the destination
  folder of a move under non-empty paths, let the moved object be in the map, found
  under its old path, with a non-empty id, and let the label be a non-zero number with
  no move pending. Then the removal and the addition that share the label are both
  passed on, with the paths of their folders, in either order of arrival; either order
  leaves the same map, in which the moved object has its new path and no move is
  pending.
\<close>

theorem move_events_converge:
  assumes src: "Map_get (otp_map m) (Some srcId) = Some srcPath" "srcPath \<noteq> []"
    and dst: "Map_get (otp_map m) (Some dstId) = Some dstPath" "dstPath \<noteq> []"
    and child: "findObjIdByPath (otp_map m) (srcPath @ ''/'' @ name) = Some (Some cid)" "cid \<noteq> []"
    and label: "label \<noteq> 0" "map_of (otp_moves m) label = None"
  shows "watchTreeEvents m [removalOf srcId ps pe name label, additionOf dstId pd pe' newName label]
      = ([\<lparr> ev_path = srcPath, ev_body = EntryRemoval name (Some label) \<rparr>,
          \<lparr> ev_path = dstPath, ev_body = EntryAddition newName (Some label) \<rparr>],
         movedMap m cid (dstPath @ ''/'' @ newName))
    \<and> watchTreeEvents m [additionOf dstId pd pe' newName label, removalOf srcId ps pe name label]
      = ([\<lparr> ev_path = dstPath, ev_body = EntryAddition newName (Some label) \<rparr>,
          \<lparr> ev_path = srcPath, ev_body = EntryRemoval name (Some label) \<rparr>],
         movedMap m cid (dstPath @ ''/'' @ newName))
    \<and> Map_get (otp_map (movedMap m cid (dstPath @ ''/'' @ newName))) (Some (Some cid))
      = Some (dstPath @ ''/'' @ newName)
    \<and> otp_moves (movedMap m cid (dstPath @ ''/'' @ newName)) = otp_moves m"
proof -
  let ?np = "dstPath @ ''/'' @ newName"
  let ?m1 = "m\<lparr>otp_moves := AList.update label
          \<lparr> mi_newPath = None, mi_objId = Some (Some cid) \<rparr> (otp_moves m)\<rparr>"
  let ?n1 = "m\<lparr>otp_moves := AList.update label
          \<lparr> mi_newPath = Some ?np, mi_objId = None \<rparr> (otp_moves m)\<rparr>"
  have r1: "getPathCorrectingTreeMap m (removalOf srcId ps pe name label) = (Some srcPath, ?m1)"
    by (rule removal_first[OF src child label])
  have a2: "getPathCorrectingTreeMap ?m1 (additionOf dstId pd pe' newName label)
      = (Some dstPath, movedMap m cid ?np)"
    using addition_second[of ?m1 dstId dstPath label cid pd pe' newName] dst label
      delete_update_absent[OF label(2)]
    by (simp add: update_conv' movedMap_def)
  have a1: "getPathCorrectingTreeMap m (additionOf dstId pd pe' newName label) = (Some dstPath, ?n1)"
    by (rule addition_first[OF dst label])
  have r2: "getPathCorrectingTreeMap ?n1 (removalOf srcId ps pe name label)
      = (Some srcPath, movedMap m cid ?np)"
    using removal_second[of ?n1 srcId srcPath name cid label ?np ps pe] src child label
      delete_update_absent[OF label(2)]
    by (simp add: update_conv' movedMap_def)
  have o1: "watchTreeEvents m [removalOf srcId ps pe name label, additionOf dstId pd pe' newName label]
      = ([\<lparr> ev_path = srcPath, ev_body = EntryRemoval name (Some label) \<rparr>,
          \<lparr> ev_path = dstPath, ev_body = EntryAddition newName (Some label) \<rparr>],
         movedMap m cid ?np)"
    using r1 a2 src(2) dst(2) by (simp add: removalOf_def additionOf_def)
  have o2: "watchTreeEvents m [additionOf dstId pd pe' newName label, removalOf srcId ps pe name label]
      = ([\<lparr> ev_path = dstPath, ev_body = EntryAddition newName (Some label) \<rparr>,
          \<lparr> ev_path = srcPath, ev_body = EntryRemoval name (Some label) \<rparr>],
         movedMap m cid ?np)"
    using a1 r2 src(2) dst(2) by (simp add: removalOf_def additionOf_def)
  have g: "Map_get (otp_map (movedMap m cid ?np)) (Some (Some cid)) = Some ?np"
    by (simp add: movedMap_def Map_get_def update_conv')
  have mv: "otp_moves (movedMap m cid ?np) = otp_moves m"
    by (simp add: movedMap_def)
  show ?thesis using o1 o2 g mv by blast
qed


lemma demoMap_entries:
  "demoMap = \<lparr> otp_map = [(Some None, Some ''.''), (Some (Some ''id-x''), Some ''./x''),
          (Some (Some ''id-d''), Some ''./x/d''), (Some (Some ''id-y''), Some ''./y'')],
       otp_moves = [] \<rparr>"
  by (simp add: demoMap_def map_eval)

theorem move_events_converge_witness:
  "Map_get (otp_map demoMap) (Some (Some ''id-x'')) = Some ''./x''
   \<and> Map_get (otp_map demoMap) (Some (Some ''id-y'')) = Some ''./y''
   \<and> findObjIdByPath (otp_map demoMap) (''./x'' @ ''/'' @ ''d'') = Some (Some ''id-d'')
   \<and> map_of (otp_moves demoMap) 7 = None
   \<and> snd (watchTreeEvents demoMap
        [removalOf (Some ''id-x'') (Some None) ''x'' ''d'' 7, additionOf (Some ''id-y'') (Some None) ''y'' ''e'' 7])
       = snd (watchTreeEvents demoMap
        [additionOf (Some ''id-y'') (Some None) ''y'' ''e'' 7, removalOf (Some ''id-x'') (Some None) ''x'' ''d'' 7])
   \<and> Map_get (otp_map (snd (watchTreeEvents demoMap
        [removalOf (Some ''id-x'') (Some None) ''x'' ''d'' 7, additionOf (Some ''id-y'') (Some None) ''y'' ''e'' 7])))
        (Some (Some ''id-d'')) = Some ''./y/e''"
proof -
  have src: "Map_get (otp_map demoMap) (Some (Some ''id-x'')) = Some ''./x''" "''./x'' \<noteq> []"
    and dst: "Map_get (otp_map demoMap) (Some (Some ''id-y'')) = Some ''./y''" "''./y'' \<noteq> []"
    and child: "findObjIdByPath (otp_map demoMap) (''./x'' @ ''/'' @ ''d'') = Some (Some ''id-d'')"
      "''id-d'' \<noteq> []"
    and label: "(7::int) \<noteq> 0" "map_of (otp_moves demoMap) 7 = None"
    by (simp_all add: demoMap_entries Map_get_def)
  show ?thesis
    using move_events_converge[OF src dst child label, of "Some None" "''x''" "Some None" "''y''" "''e''"]
      src dst child label
    by simp
qed

text \<open>
  The claim as the specification states it (after both events the moved object maps
  to its new path) fails for an object that the map does not hold, as a file that has
  had no event of its own: moving \<open>x/f\<close> to \<open>y/g\<close> leaves the file's id unmapped in
  either order of arrival, and leaves the move pending.
\<close>

theorem move_of_unlisted_file_counterexample:
  "nodeAt demoTree [''x'', ''f''] = Some (FileN demoFile)
   \<and> fn_objId demoFile = ''id-f''
   \<and> watchTreeEvents demoMap
        [removalOf (Some ''id-x'') (Some None) ''x'' ''f'' 7, additionOf (Some ''id-y'') (Some None) ''y'' ''g'' 7]
      = ([\<lparr> ev_path = ''./x'', ev_body = EntryRemoval ''f'' (Some 7) \<rparr>,
          \<lparr> ev_path = ''./y'', ev_body = EntryAddition ''g'' (Some 7) \<rparr>],
         demoMap\<lparr>otp_moves := [(7, \<lparr> mi_newPath = Some ''./y/g'', mi_objId = None \<rparr>)]\<rparr>)
   \<and> watchTreeEvents demoMap
        [additionOf (Some ''id-y'') (Some None) ''y'' ''g'' 7, removalOf (Some ''id-x'') (Some None) ''x'' ''f'' 7]
      = ([\<lparr> ev_path = ''./y'', ev_body = EntryAddition ''g'' (Some 7) \<rparr>,
          \<lparr> ev_path = ''./x'', ev_body = EntryRemoval ''f'' (Some 7) \<rparr>],
         demoMap\<lparr>otp_moves := [(7, \<lparr> mi_newPath = Some ''./y/g'', mi_objId = None \<rparr>)]\<rparr>)
   \<and> Map_get (otp_map demoMap) (Some (Some ''id-f'')) = None"
  by (simp add: demoMap_entries demoTree_def demoFile_def Map_get_def
      getPathCorrectingTreeMap_def removalOf_def additionOf_def truthyStr_def truthyId_def Let_def)

text \<open>
  The same pair of events for an object that the map does not hold under its old path:
  in either order of arrival both events are passed on, the map from ids to paths stays
  as it is, so that the object stays unmapped, and the addition leaves its move pending.
\<close>

lemma move_of_unlisted_object_leaves_map:
  assumes src: "Map_get (otp_map m) (Some srcId) = Some srcPath" "srcPath \<noteq> []"
    and dst: "Map_get (otp_map m) (Some dstId) = Some dstPath" "dstPath \<noteq> []"
    and unlisted: "\<not> truthyId (findObjIdByPath (otp_map m) (srcPath @ ''/'' @ name))"
    and label: "label \<noteq> 0" "map_of (otp_moves m) label = None"
  shows "watchTreeEvents m [removalOf srcId ps pe name label, additionOf dstId pd pe' newName label]
      = ([\<lparr> ev_path = srcPath, ev_body = EntryRemoval name (Some label) \<rparr>,
          \<lparr> ev_path = dstPath, ev_body = EntryAddition newName (Some label) \<rparr>],
         m\<lparr>otp_moves := AList.update label
              \<lparr> mi_newPath = Some (dstPath @ ''/'' @ newName), mi_objId = None \<rparr> (otp_moves m)\<rparr>)
    \<and> watchTreeEvents m [additionOf dstId pd pe' newName label, removalOf srcId ps pe name label]
      = ([\<lparr> ev_path = dstPath, ev_body = EntryAddition newName (Some label) \<rparr>,
          \<lparr> ev_path = srcPath, ev_body = EntryRemoval name (Some label) \<rparr>],
         m\<lparr>otp_moves := AList.update label
              \<lparr> mi_newPath = Some (dstPath @ ''/'' @ newName), mi_objId = None \<rparr> (otp_moves m)\<rparr>)
    \<and> otp_map (snd (watchTreeEvents m
          [removalOf srcId ps pe name label, additionOf dstId pd pe' newName label])) = otp_map m
    \<and> otp_map (snd (watchTreeEvents m
          [additionOf dstId pd pe' newName label, removalOf srcId ps pe name label])) = otp_map m"
proof -
  let ?n1 = "m\<lparr>otp_moves := AList.update label
          \<lparr> mi_newPath = Some (dstPath @ ''/'' @ newName), mi_objId = None \<rparr> (otp_moves m)\<rparr>"
  have r: "getPathCorrectingTreeMap m (removalOf srcId ps pe name label) = (Some srcPath, m)"
    using src unlisted label
    by (simp add: getPathCorrectingTreeMap_def removalOf_def truthyStr_def Let_def)
  have a: "getPathCorrectingTreeMap m (additionOf dstId pd pe' newName label) = (Some dstPath, ?n1)"
    using dst label
    by (simp add: getPathCorrectingTreeMap_def additionOf_def truthyStr_def Let_def)
  have r2: "getPathCorrectingTreeMap ?n1 (removalOf srcId ps pe name label) = (Some srcPath, ?n1)"
    using src unlisted label
    by (simp add: getPathCorrectingTreeMap_def removalOf_def truthyStr_def Let_def)
  have o1: "watchTreeEvents m [removalOf srcId ps pe name label, additionOf dstId pd pe' newName label]
      = ([\<lparr> ev_path = srcPath, ev_body = EntryRemoval name (Some label) \<rparr>,
          \<lparr> ev_path = dstPath, ev_body = EntryAddition newName (Some label) \<rparr>], ?n1)"
    using r a src(2) dst(2) by (simp add: removalOf_def additionOf_def)
  have o2: "watchTreeEvents m [additionOf dstId pd pe' newName label, removalOf srcId ps pe name label]
      = ([\<lparr> ev_path = dstPath, ev_body = EntryAddition newName (Some label) \<rparr>,
          \<lparr> ev_path = srcPath, ev_body = EntryRemoval name (Some label) \<rparr>], ?n1)"
    using a r2 src(2) dst(2) by (simp add: removalOf_def additionOf_def)
  show ?thesis using o1 o2 by simp
qed

end
